theory Spec2Isabelle
  imports Complex_Main "HOL-Library.Word" "HOL-Library.Char_ord" "HOL-Library.List_Lexorder"
begin

section \<open>Errors, arrays and the file system\<close>

text \<open>
  The helper functions of the tutorial notebook (cell 8 of
  \<^verbatim>\<open>tutorials/tutorial12/tutorial-12-cdmd.ipynb\<close>) are embedded as HOL functions.
  Every exception the Python can raise on the modelled paths is a value of \<open>error\<close>.
\<close>

datatype error =
    FileNotFoundError
  | AttributeError
  | ValueError
  | AssertionError
  | IndexError
  | ZeroDivisionError

text \<open>
  A freshly built numpy array, as a value: its \<open>shape\<close> and its elements in row-major
  (C) order. Floating-point elements (\<open>float32\<close>, \<open>float64\<close>) are idealised as exact
  reals; rounding is outside the model.
\<close>

record 'a ndarray =
  shape :: "nat list"
  flat :: "'a list"

text \<open>
  What the loaders see of the outside world: \<open>os.listdir\<close> (\<open>None\<close>: the directory does
  not exist, Python raises \<open>FileNotFoundError\<close>) and \<open>cv2.imread\<close> with
  \<open>IMREAD_GRAYSCALE\<close> (a two-dimensional \<open>uint8\<close> array, or \<open>None\<close> for a file that
  cannot be read). File names are byte strings; Python's \<open>sorted\<close> on them is \<open>sort\<close>
  in the lexicographic order on character codes.
\<close>

record filesystem =
  listdir :: "string \<Rightarrow> string list option"
  imread :: "string \<Rightarrow> 8 word ndarray option"

definition astype_float32_div255 :: "8 word \<Rightarrow> real" where
  "astype_float32_div255 p = real (unat p) / 255"

definition clip :: "real \<Rightarrow> real \<Rightarrow> real \<Rightarrow> real" where
  "clip lo hi x = min (max x lo) hi"

subsection \<open>get_video_dmd\<close>

text \<open>
  The loop body of \<open>get_video_dmd\<close>: read the image, remember its shape, flatten and
  normalise it, append it. \<open>tmp.shape\<close> on the \<open>None\<close> of an unreadable file raises
  \<open>AttributeError\<close>.
\<close>

fun dmd_frames ::
  "filesystem \<Rightarrow> string \<Rightarrow> string list \<Rightarrow> real list list \<Rightarrow> nat list option
     \<Rightarrow> error + (real list list \<times> nat list option)" where
  "dmd_frames fs dir [] imgs shp = Inr (imgs, shp)"
| "dmd_frames fs dir (i # rest) imgs shp =
     (case imread fs (dir @ ''/'' @ i) of
        None \<Rightarrow> Inl AttributeError
      | Some tmp \<Rightarrow>
          dmd_frames fs dir rest (imgs @ [map astype_float32_div255 (flat tmp)])
            (Some (shape tmp)))"

text \<open>
  \<open>np.vstack\<close> of one-dimensional arrays: \<open>ValueError\<close> on an empty list and on rows of
  different lengths.
\<close>

definition vstack :: "real list list \<Rightarrow> error + real ndarray" where
  "vstack imgs =
     (case imgs of
        [] \<Rightarrow> Inl ValueError
      | r # rs \<Rightarrow>
          if list_all (\<lambda>x. length x = length r) rs
          then Inr \<lparr>shape = [length imgs, length r], flat = concat imgs\<rparr>
          else Inl ValueError)"

text \<open>The \<open>.T\<close> of a two-dimensional array, as a value (other ranks are not used).\<close>

definition ndarray_T :: "real ndarray \<Rightarrow> real ndarray" where
  "ndarray_T m =
     (case shape m of
        [n, l] \<Rightarrow>
          \<lparr>shape = [l, n],
           flat = concat (map (\<lambda>j. map (\<lambda>i. flat m ! (i * l + j)) [0..<n]) [0..<l])\<rparr>
      | _ \<Rightarrow> m)"

text \<open>
  \<open>vid += np.random.normal(0, noise_amt, vid.shape); vid = vid.clip(0, 1)\<close>.
  The values the generator draws are an argument, \<open>normal\<close>, one per element of \<open>vid\<close>
  in row-major order.
\<close>

definition add_noise_clip :: "real ndarray \<Rightarrow> real list \<Rightarrow> real ndarray" where
  "add_noise_clip vid normal =
     vid\<lparr>flat := map (clip 0 1) (map2 (+) (flat vid) normal)\<rparr>"

definition jpeg_dir :: string where
  "jpeg_dir = ''SegTrackv2/JPEGImages/''"

text \<open>
  \<open>get_video_dmd\<close>. The noisy, clipped \<open>vid\<close> is computed when \<open>noise\<close> is set
  (\<open>np.random.normal\<close> raises \<open>ValueError\<close> on a negative scale), but the \<open>return\<close>
  statement stacks \<open>imgs\<close> again and returns that.
\<close>

definition get_video_dmd ::
  "filesystem \<Rightarrow> string \<Rightarrow> bool \<Rightarrow> real \<Rightarrow> real list
     \<Rightarrow> error + (real ndarray \<times> nat list option)" where
  "get_video_dmd fs object noise noise_amt normal =
     (case listdir fs (jpeg_dir @ object) of
        None \<Rightarrow> Inl FileNotFoundError
      | Some names \<Rightarrow>
          (case dmd_frames fs (jpeg_dir @ object) (sort names) [] None of
             Inl e \<Rightarrow> Inl e
           | Inr (imgs, shp) \<Rightarrow>
               (case vstack imgs of
                  Inl e \<Rightarrow> Inl e
                | Inr stacked \<Rightarrow>
                    (let vid = ndarray_T stacked in
                     if noise then
                       (if noise_amt < 0 then Inl ValueError
                        else (let vid = add_noise_clip vid normal
                              in Inr (ndarray_T stacked, shp)))
                     else Inr (ndarray_T stacked, shp)))))"

subsection \<open>get_gt_video\<close>

text \<open>
  The loop body of \<open>get_gt_video\<close>. The first assignment to \<open>tmp\<close> (a path string built
  from \<open>gt_dir\<close>) is overwritten at once and has no effect.
\<close>

fun gt_frames ::
  "filesystem \<Rightarrow> string \<Rightarrow> string list \<Rightarrow> real ndarray list \<Rightarrow> error + real ndarray list" where
  "gt_frames fs dir [] imgs = Inr imgs"
| "gt_frames fs dir (i # rest) imgs =
     (case imread fs (dir @ ''/'' @ i) of
        None \<Rightarrow> Inl AttributeError
      | Some tmp \<Rightarrow>
          gt_frames fs dir rest
            (imgs @ [\<lparr>shape = shape tmp, flat = map astype_float32_div255 (flat tmp)\<rparr>]))"

text \<open>
  \<open>np.asarray\<close> of a list of arrays: the empty list gives an empty array of shape
  \<open>(0,)\<close>; arrays of different shapes raise \<open>ValueError\<close> (numpy 1.24 and later).
\<close>

definition asarray :: "real ndarray list \<Rightarrow> error + real ndarray" where
  "asarray imgs =
     (case imgs of
        [] \<Rightarrow> Inr \<lparr>shape = [0], flat = []\<rparr>
      | a # as \<Rightarrow>
          if list_all (\<lambda>x. shape x = shape a) as
          then Inr \<lparr>shape = length imgs # shape a, flat = concat (map flat imgs)\<rparr>
          else Inl ValueError)"

text \<open>
  \<open>get_gt_video\<close>, with the source's local names: the variable called \<open>jpeg_dir\<close> holds
  the ground-truth path and the one called \<open>gt_dir\<close> the raw-frame path. The set
  intersection has no order of its own; it is sorted before the loop.
\<close>

definition get_gt_video :: "filesystem \<Rightarrow> string \<Rightarrow> error + real ndarray" where
  "get_gt_video fs object =
     (let jpeg_dir = ''SegTrackv2/GroundTruth/'';
          gt_dir = ''SegTrackv2/JPEGImages/''
      in case listdir fs (jpeg_dir @ object) of
           None \<Rightarrow> Inl FileNotFoundError
         | Some l1 \<Rightarrow>
             (case listdir fs (gt_dir @ object) of
                None \<Rightarrow> Inl FileNotFoundError
              | Some l2 \<Rightarrow>
                  (let jpeg_list = sort l1;
                       gt_list = sort l2;
                       valid = remdups (filter (\<lambda>x. x \<in> set gt_list) jpeg_list)
                   in case gt_frames fs (jpeg_dir @ object) (sort valid) [] of
                        Inl e \<Rightarrow> Inl e
                      | Inr imgs \<Rightarrow> asarray imgs)))"

section \<open>Arrays in memory\<close>

text \<open>
  The metric helpers and \<open>get_video_removed\<close> write into arrays their caller passed, and
  \<open>a[i, :, :]\<close> is a view that shares memory with \<open>a\<close>. So these functions are modelled
  over an explicit store: the heap is the list of allocated buffers, and an array
  reference is a C-contiguous view of one buffer (which buffer, the offset of its first
  element, its shape). A function takes the heap and returns the heap it leaves behind,
  also when it raises.
\<close>

type_synonym heap = "real list list"

record view =
  buf :: nat
  off :: nat
  dims :: "nat list"

definition valid :: "heap \<Rightarrow> view \<Rightarrow> bool" where
  "valid h r \<longleftrightarrow> buf r < length h \<and> off r + prod_list (dims r) \<le> length (h ! buf r)"

definition elems :: "heap \<Rightarrow> view \<Rightarrow> real list" where
  "elems h r = take (prod_list (dims r)) (drop (off r) (h ! buf r))"

definition store :: "heap \<Rightarrow> view \<Rightarrow> real list \<Rightarrow> heap" where
  "store h r xs =
     h[buf r := take (off r) (h ! buf r) @ xs @ drop (off r + prod_list (dims r)) (h ! buf r)]"

text \<open>\<open>a[i, :, :]\<close>, the \<open>i\<close>-th slice along the first axis, and \<open>a.copy()\<close>.\<close>

definition frame :: "view \<Rightarrow> nat \<Rightarrow> view" where
  "frame r i = \<lparr>buf = buf r, off = off r + i * prod_list (tl (dims r)), dims = tl (dims r)\<rparr>"

definition copy :: "heap \<Rightarrow> view \<Rightarrow> heap \<times> view" where
  "copy h r = (h @ [elems h r], \<lparr>buf = length h, off = 0, dims = dims r\<rparr>)"

text \<open>
  Two views do not overlap in memory when they lie in different buffers or cover
  disjoint ranges of one buffer.
\<close>

definition disjoint_views :: "view \<Rightarrow> view \<Rightarrow> bool" where
  "disjoint_views r r' \<longleftrightarrow>
     buf r \<noteq> buf r'
     \<or> off r + prod_list (dims r) \<le> off r'
     \<or> off r' + prod_list (dims r') \<le> off r"

subsection \<open>calc_iou and calc_miou\<close>

text \<open>
  The two statements \<open>pred[pred < thresh] = 0\<close> and \<open>pred[pred >= thresh] = 1\<close>, which
  \<open>calc_iou\<close> runs on its argument and \<open>calc_f1\<close> on its copy. The second statement
  reads what the first one wrote.
\<close>

definition binarize :: "heap \<Rightarrow> view \<Rightarrow> real \<Rightarrow> heap" where
  "binarize h pred thresh =
     (let h = store h pred (map (\<lambda>x. if x < thresh then 0 else x) (elems h pred));
          h = store h pred (map (\<lambda>x. if x \<ge> thresh then 1 else x) (elems h pred))
      in h)"

text \<open>
  \<open>calc_iou\<close>. \<open>np.logical_and\<close> and \<open>np.logical_or\<close> read every non-zero element as
  true. Operands of unequal shape raise \<open>ValueError\<close> in numpy unless the shapes are
  broadcast-compatible; for these two functions broadcasting is not modelled, \<open>calc_iou\<close>
  and \<open>calc_miou\<close> are meant for operands of equal shape.
\<close>

definition calc_iou :: "heap \<Rightarrow> view \<Rightarrow> view \<Rightarrow> real \<Rightarrow> heap \<times> (error + real)" where
  "calc_iou h pred truth thresh =
     (let h = binarize h pred thresh
      in if dims pred \<noteq> dims truth then (h, Inl ValueError)
         else
           (let pt = zip (elems h pred) (elems h truth);
                intersection = length (filter (\<lambda>(p, t). p \<noteq> 0 \<and> t \<noteq> 0) pt);
                union = length (filter (\<lambda>(p, t). p \<noteq> 0 \<or> t \<noteq> 0) pt)
            in (h, Inr (if union > 0 then real intersection / real union else 0))))"

text \<open>
  The loop of \<open>calc_miou\<close> over \<open>range(pred.shape[0])\<close>; \<open>pred[i, :, :]\<close> raises
  \<open>IndexError\<close> on an array of fewer than three dimensions.
\<close>

fun miou_loop ::
  "heap \<Rightarrow> view \<Rightarrow> view \<Rightarrow> real \<Rightarrow> nat list \<Rightarrow> real \<Rightarrow> heap \<times> (error + real)" where
  "miou_loop h pred truth thresh [] miou = (h, Inr miou)"
| "miou_loop h pred truth thresh (i # rest) miou =
     (if length (dims pred) < 3 then (h, Inl IndexError)
      else
        (case calc_iou h (frame pred i) (frame truth i) thresh of
           (h', Inl e) \<Rightarrow> (h', Inl e)
         | (h', Inr iou) \<Rightarrow> miou_loop h' pred truth thresh rest (miou + iou)))"

text \<open>
  \<open>calc_miou\<close>: the assertion, the copy, the loop, the division by the number of frames
  (\<open>0 / 0\<close> on Python integers when there is no frame).
\<close>

definition calc_miou :: "heap \<Rightarrow> view \<Rightarrow> view \<Rightarrow> real \<Rightarrow> heap \<times> (error + real)" where
  "calc_miou h pred truth thresh =
     (if dims pred \<noteq> dims truth then (h, Inl AssertionError)
      else
        (case copy h pred of
           (h, pred) \<Rightarrow>
             (case dims pred of
                [] \<Rightarrow> (h, Inl IndexError)
              | n # ds \<Rightarrow>
                  (case miou_loop h pred truth thresh [0..<n] 0 of
                     (h, Inl e) \<Rightarrow> (h, Inl e)
                   | (h, Inr miou) \<Rightarrow>
                       if n = 0 then (h, Inl ZeroDivisionError)
                       else (h, Inr (miou / real n))))))"

subsection \<open>f1_score and calc_f1\<close>

definition epsilon :: real where
  "epsilon = 1 / 10000000"

text \<open>
  \<open>f1_score\<close> on the flattened \<open>uint8\<close> arrays that \<open>calc_f1\<close> passes: the elementwise
  products and \<open>1 - y\<close> are \<open>uint8\<close> arithmetic, \<open>sum\<close> accumulates in a 64-bit unsigned
  integer (taken as a natural number), and adding \<open>epsilon\<close> turns the counts into
  floats. The counts are not negative, so every denominator is at least \<open>epsilon\<close>.
  Arrays of different lengths raise \<open>ValueError\<close> (broadcasting is not modelled).
\<close>

definition f1_score :: "8 word list \<Rightarrow> 8 word list \<Rightarrow> int \<Rightarrow> error + real" where
  "f1_score y_true y_pred beta =
     (if length y_true \<noteq> length y_pred then Inl ValueError
      else
        (let tp = real (sum_list (map unat (map2 (\<lambda>t p. t * p) y_true y_pred)));
             tn = real (sum_list (map unat (map2 (\<lambda>t p. (1 - t) * (1 - p)) y_true y_pred)));
             fp = real (sum_list (map unat (map2 (\<lambda>t p. (1 - t) * p) y_true y_pred)));
             fn = real (sum_list (map unat (map2 (\<lambda>t p. t * (1 - p)) y_true y_pred)));
             precision = tp / (tp + fp + epsilon);
             recall = tp / (tp + fn + epsilon);
             f1 = (1 + real_of_int (beta ^ 2)) * (precision * recall);
             f1 = f1 / (real_of_int (beta ^ 2) * precision + recall + epsilon)
         in Inr f1))"

text \<open>
  \<open>calc_f1\<close>. The conversion \<open>astype(np.uint8)\<close> of a float is numpy's; it is the
  argument \<open>astype_uint8\<close>.
\<close>

definition calc_f1 ::
  "(real \<Rightarrow> 8 word) \<Rightarrow> heap \<Rightarrow> view \<Rightarrow> view \<Rightarrow> real \<Rightarrow> heap \<times> (error + real)" where
  "calc_f1 astype_uint8 h pred truth thresh =
     (if dims pred \<noteq> dims truth then (h, Inl AssertionError)
      else
        (case copy h pred of
           (h, pred) \<Rightarrow>
             (case copy h truth of
                (h, truth) \<Rightarrow>
                  (let h = binarize h pred thresh;
                       pred8 = map astype_uint8 (elems h pred);
                       truth8 = map astype_uint8 (elems h truth)
                   in (h, f1_score truth8 pred8 1)))))"

subsection \<open>get_video_removed and the playback transform\<close>

text \<open>
  numpy's broadcasting of the right operand of an in-place operation \<open>a -= b\<close>: the
  shape of \<open>b\<close> is padded with leading ones to the rank of \<open>a\<close>, and along every axis
  the extent of \<open>b\<close> must be that of \<open>a\<close> or 1 (a \<open>b\<close> of higher rank, or of another
  extent, raises \<open>ValueError\<close>). Along an axis of extent 1 the data of \<open>b\<close> is repeated.
  \<open>bcast\<close> takes shapes of equal rank; both lists of elements are in row-major order.
\<close>

fun bcast :: "nat list \<Rightarrow> nat list \<Rightarrow> real list \<Rightarrow> real list" where
  "bcast (d # ds) (b # bs) xs =
     (if b = d
      then concat (map (\<lambda>k. bcast ds bs (take (prod_list bs) (drop (k * prod_list bs) xs)))
                     [0..<d])
      else concat (replicate d (bcast ds bs xs)))"
| "bcast ds bs xs = xs"

definition pad_dims :: "nat list \<Rightarrow> nat list \<Rightarrow> nat list" where
  "pad_dims ds bs = replicate (length ds - length bs) 1 @ bs"

definition broadcastable :: "nat list \<Rightarrow> nat list \<Rightarrow> bool" where
  "broadcastable ds bs \<longleftrightarrow>
     length bs \<le> length ds \<and> list_all2 (\<lambda>d b. b = d \<or> b = 1) ds (pad_dims ds bs)"

definition broadcast_to :: "nat list \<Rightarrow> nat list \<Rightarrow> real list \<Rightarrow> real list" where
  "broadcast_to ds bs xs = bcast ds (pad_dims ds bs) xs"

text \<open>
  The loop of \<open>get_video_removed\<close>: \<open>video[i, :, :] -= bg\<close>, an in-place subtraction.
  \<open>video[i, :, :]\<close> raises \<open>IndexError\<close> on an array of fewer than three dimensions; a
  \<open>bg\<close> that does not broadcast to the shape of the frame raises \<open>ValueError\<close>. Both
  operands are read from the heap as it is at that iteration, then the frame is
  written.
\<close>

fun removed_loop :: "heap \<Rightarrow> view \<Rightarrow> view \<Rightarrow> nat list \<Rightarrow> heap \<times> (error + unit)" where
  "removed_loop h video bg [] = (h, Inr ())"
| "removed_loop h video bg (i # rest) =
     (if length (dims video) < 3 then (h, Inl IndexError)
      else if \<not> broadcastable (tl (dims video)) (dims bg) then (h, Inl ValueError)
      else
        removed_loop
          (store h (frame video i)
             (map2 (-) (elems h (frame video i))
                (broadcast_to (tl (dims video)) (dims bg) (elems h bg))))
          video bg rest)"

text \<open>\<open>get_video_removed\<close> returns the array it was given.\<close>

definition get_video_removed :: "heap \<Rightarrow> view \<Rightarrow> view \<Rightarrow> heap \<times> (error + view)" where
  "get_video_removed h video bg =
     (case dims video of
        [] \<Rightarrow> (h, Inl IndexError)
      | n # ds \<Rightarrow>
          (case removed_loop h video bg [0..<n] of
             (h, Inl e) \<Rightarrow> (h, Inl e)
           | (h, Inr u) \<Rightarrow> (h, Inr video)))"

text \<open>
  The transform \<open>play_video_removed\<close> applies to each frame before showing it (the same
  statements in its body, in \<open>init\<close> and in \<open>animate\<close>): \<open>subbed = video[i, :, :] - bg\<close>
  is a new array; with \<open>mask\<close> set (\<open>use_mask\<close> here) it is thresholded by \<open>subbed[subbed > thresh] = 1\<close>,
  then \<open>subbed[subbed <= thresh] = 0\<close>, otherwise clipped. The plotting is not modelled.
\<close>

definition play_video_removed_frame ::
  "bool \<Rightarrow> real \<Rightarrow> real list \<Rightarrow> real list \<Rightarrow> real list" where
  "play_video_removed_frame use_mask thresh video_i bg =
     (let subbed = map2 (-) video_i bg
      in if use_mask then
           (let subbed = map (\<lambda>x. if x > thresh then 1 else x) subbed;
                subbed = map (\<lambda>x. if x \<le> thresh then 0 else x) subbed
            in subbed)
         else map (clip 0 1) subbed)"

section \<open>Auxiliary notions for the proofs\<close>

text \<open>
  The ratio \<open>calc_iou\<close> returns, as a function of the contents of \<open>pred\<close> (after the
  binarization) and of \<open>truth\<close>. It is used to state lemmas about \<open>calc_iou\<close>; the
  definition of \<open>calc_iou\<close> above does not depend on it.
\<close>

definition iou_of :: "real list \<Rightarrow> real list \<Rightarrow> real" where
  "iou_of ps ts =
     (let pt = zip ps ts;
          i = length (filter (\<lambda>(p, t). p \<noteq> 0 \<and> t \<noteq> 0) pt);
          u = length (filter (\<lambda>(p, t). p \<noteq> 0 \<or> t \<noteq> 0) pt)
      in if u > 0 then real i / real u else 0)"

text \<open>\<open>m[:, i]\<close>, column \<open>i\<close> of a two-dimensional array.\<close>

definition column :: "real ndarray \<Rightarrow> nat \<Rightarrow> real list" where
  "column m i =
     (case shape m of
        [r, c] \<Rightarrow> map (\<lambda>j. flat m ! (j * c + i)) [0..<r]
      | _ \<Rightarrow> [])"

section \<open>Concrete inputs\<close>

text \<open>
  A small file system: the raw-frame directory of \<open>frog\<close> lists \<open>b.png\<close> and \<open>a.png\<close>,
  the ground-truth directory lists \<open>a.png\<close> and \<open>c.png\<close>; every image is one row of two
  pixels, and \<open>a.png\<close> has different pixels in the two directories.
\<close>

definition example_fs :: filesystem where
  "example_fs =
     \<lparr>listdir = (\<lambda>d.
        if d = ''SegTrackv2/JPEGImages/frog'' then Some [''b.png'', ''a.png'']
        else if d = ''SegTrackv2/GroundTruth/frog'' then Some [''a.png'', ''c.png'']
        else None),
      imread = (\<lambda>p.
        if p = ''SegTrackv2/JPEGImages/frog/a.png'' then Some \<lparr>shape = [1, 2], flat = [0, 255]\<rparr>
        else if p = ''SegTrackv2/JPEGImages/frog/b.png'' then Some \<lparr>shape = [1, 2], flat = [51, 102]\<rparr>
        else if p = ''SegTrackv2/GroundTruth/frog/a.png'' then Some \<lparr>shape = [1, 2], flat = [255, 0]\<rparr>
        else if p = ''SegTrackv2/GroundTruth/frog/c.png'' then Some \<lparr>shape = [1, 2], flat = [0, 0]\<rparr>
        else None)\<rparr>"

text \<open>The images of the raw-frame directory of \<open>example_fs\<close>, by file name.\<close>

definition example_img :: "string \<Rightarrow> 8 word ndarray" where
  "example_img i =
     (if i = ''a.png'' then \<lparr>shape = [1, 2], flat = [0, 255]\<rparr>
      else \<lparr>shape = [1, 2], flat = [51, 102]\<rparr>)"

text \<open>
  A heap of three buffers: a video of two frames of one row and two pixels, its ground
  truth, and a binary prediction equal to the ground truth.
\<close>

definition example_heap :: heap where
  "example_heap = [[1 / 20, 1 / 2, 3 / 10, 1 / 10], [0, 1, 1, 0], [0, 1, 1, 0]]"

definition example_pred :: view where
  "example_pred = \<lparr>buf = 0, off = 0, dims = [2, 1, 2]\<rparr>"

definition example_truth :: view where
  "example_truth = \<lparr>buf = 1, off = 0, dims = [2, 1, 2]\<rparr>"

definition example_mask :: view where
  "example_mask = \<lparr>buf = 2, off = 0, dims = [2, 1, 2]\<rparr>"

text \<open>
  A conversion to \<open>uint8\<close> for the calls of \<open>calc_f1\<close> on these inputs: truncation, which
  is what numpy does on the pixel range.
\<close>

definition example_astype_uint8 :: "real \<Rightarrow> 8 word" where
  "example_astype_uint8 x = word_of_int \<lfloor>x\<rfloor>"

text \<open>A background image of one row and two pixels, held in the second buffer.\<close>

definition example_bg :: view where
  "example_bg = \<lparr>buf = 1, off = 0, dims = [1, 2]\<rparr>"

text \<open>The same two pixels as a one-dimensional array, which broadcasts to a frame.\<close>

definition example_row :: view where
  "example_row = \<lparr>buf = 1, off = 0, dims = [2]\<rparr>"

text \<open>A heap with one array of one frame, \<open>[[[1/20, 1/2]]]\<close>.\<close>

definition alias_heap :: heap where
  "alias_heap = [[1 / 20, 1 / 2]]"

definition alias_array :: view where
  "alias_array = \<lparr>buf = 0, off = 0, dims = [1, 1, 2]\<rparr>"

section \<open>Properties of the store\<close>

lemma length_elems: "valid h r \<Longrightarrow> length (elems h r) = prod_list (dims r)"
  by (auto simp: valid_def elems_def)

lemma length_store [simp]: "length (store h r xs) = length h"
  by (simp add: store_def)

lemma store_other_buf: "b \<noteq> buf r \<Longrightarrow> store h r xs ! b = h ! b"
  by (simp add: store_def)

lemma length_store_buf:
  "valid h r \<Longrightarrow> length xs = prod_list (dims r) \<Longrightarrow> length (store h r xs ! b) = length (h ! b)"
  by (cases "b = buf r") (auto simp: store_def valid_def)

lemma valid_store:
  "valid h r \<Longrightarrow> length xs = prod_list (dims r) \<Longrightarrow> valid h r' \<Longrightarrow> valid (store h r xs) r'"
  using length_store_buf[of h r xs "buf r'"] by (simp add: valid_def)

lemma elems_store_same:
  "valid h r \<Longrightarrow> length xs = prod_list (dims r) \<Longrightarrow> elems (store h r xs) r = xs"
  by (simp add: elems_def store_def valid_def)

lemma elems_store_other:
  "buf r' \<noteq> buf r \<Longrightarrow> elems (store h r xs) r' = elems h r'"
  by (simp add: elems_def store_def)

lemma elems_store_disjoint:
  assumes "valid h r" and "length xs = prod_list (dims r)" and "buf r' = buf r"
    and "off r' + prod_list (dims r') \<le> off r \<or> off r + prod_list (dims r) \<le> off r'"
  shows "elems (store h r xs) r' = elems h r'"
  using assms by (auto simp: elems_def store_def valid_def drop_take)

lemma store_store:
  "valid h r \<Longrightarrow> length xs = prod_list (dims r) \<Longrightarrow> store (store h r xs) r ys = store h r ys"
  by (simp add: store_def valid_def)

lemma store_elems: "valid h r \<Longrightarrow> store h r (elems h r) = h"
  apply (simp add: store_def valid_def elems_def)
  by (metis add.commute append_take_drop_id drop_drop list_update_id)

section \<open>The binarization of the metric helpers\<close>

text \<open>
  What the two statements of \<open>binarize\<close> leave in \<open>pred\<close>: an element at or above the
  threshold becomes 1; an element below it becomes 0 in the first statement, and the
  second statement turns that 0 into 1 when the threshold is not positive.
\<close>

lemma binarize_store:
  assumes "valid h r"
  shows "binarize h r t = store h r (map (\<lambda>x. if t \<le> 0 \<or> t \<le> x then 1 else 0) (elems h r))"
proof -
  have eq: "(\<lambda>x. if t \<le> x then 1 else x) \<circ> (\<lambda>x. if x < t then 0 else x) =
        (\<lambda>x. if t \<le> 0 \<or> t \<le> x then 1 else (0::real))"
    by (auto simp: fun_eq_iff)
  from assms show ?thesis
    by (simp add: binarize_def Let_def elems_store_same store_store length_elems eq)
qed

lemma elems_binarize:
  "valid h r \<Longrightarrow>
   elems (binarize h r t) r = map (\<lambda>x. if t \<le> 0 \<or> t \<le> x then 1 else 0) (elems h r)"
  by (simp add: binarize_store elems_store_same length_elems)

lemma fst_calc_iou: "fst (calc_iou h pred truth thresh) = binarize h pred thresh"
  by (simp add: calc_iou_def Let_def)

lemma length_filter_mono:
  "(\<And>x. x \<in> set xs \<Longrightarrow> P x \<Longrightarrow> Q x) \<Longrightarrow> length (filter P xs) \<le> length (filter Q xs)"
  by (induction xs) auto

lemma valid_example:
  "valid example_heap example_pred" "valid example_heap example_truth"
  "valid example_heap example_mask"
  by (simp_all add: valid_def example_heap_def example_pred_def example_truth_def
      example_mask_def)

lemma elems_example:
  "elems example_heap example_pred = [1 / 20, 1 / 2, 3 / 10, 1 / 10]"
  "elems example_heap example_truth = [0, 1, 1, 0]"
  "elems example_heap example_mask = [0, 1, 1, 0]"
  by (simp_all add: elems_def example_heap_def example_pred_def example_truth_def
      example_mask_def)

text \<open>
  \<open>calc_f1\<close> runs the same binarization on the copy of \<open>pred\<close> it allocates, which is
  the view \<open>snd (copy h pred)\<close> of the heap it leaves behind.
\<close>

lemma elems_calc_f1_copy:
  assumes "valid h pred" and "dims pred = dims truth"
  shows "elems (fst (calc_f1 astype_uint8 h pred truth t)) (snd (copy h pred)) =
     map (\<lambda>x. if t \<le> 0 \<or> t \<le> x then 1 else 0) (elems h pred)"
proof -
  let ?p = "\<lparr>buf = length h, off = 0, dims = dims pred\<rparr>"
  let ?h1 = "h @ [elems h pred]"
  let ?h2 = "?h1 @ [elems ?h1 truth]"
  have len: "length (elems h pred) = prod_list (dims pred)"
    using assms(1) by (rule length_elems)
  then have v: "valid ?h2 ?p"
    by (simp add: valid_def nth_append)
  have e: "elems ?h2 ?p = elems h pred"
    using len by (simp add: elems_def nth_append)
  have "fst (calc_f1 astype_uint8 h pred truth t) = binarize ?h2 ?p t"
    using assms(2) by (simp add: calc_f1_def copy_def Let_def)
  then show ?thesis
    using elems_binarize[OF v, of t] e by (simp add: copy_def)
qed

text \<open>
  Claim C6. For a fixed \<open>pred\<close> and thresholds \<open>t1 \<le> t2\<close>, the binarization of the
  metric helpers leaves at most as many elements equal to 1, the foreground, at \<open>t2\<close> as
  at \<open>t1\<close>: raising the threshold never raises the foreground count. This holds for
  what \<open>calc_iou\<close> leaves in \<open>pred\<close> and for what \<open>calc_f1\<close> leaves in its copy.
\<close>

theorem binarize_threshold_monotone:
  assumes "valid h pred" and "t1 \<le> t2"
  shows "length (filter (\<lambda>x. x = 1) (elems (fst (calc_iou h pred truth t2)) pred))
       \<le> length (filter (\<lambda>x. x = 1) (elems (fst (calc_iou h pred truth t1)) pred))
     \<and> (dims pred = dims truth \<longrightarrow>
         length (filter (\<lambda>x. x = 1)
           (elems (fst (calc_f1 astype_uint8 h pred truth t2)) (snd (copy h pred))))
       \<le> length (filter (\<lambda>x. x = 1)
           (elems (fst (calc_f1 astype_uint8 h pred truth t1)) (snd (copy h pred)))))"
proof -
  have "length (filter ((\<lambda>x. x = 1) \<circ> (\<lambda>x. if t2 \<le> 0 \<or> t2 \<le> x then 1 else (0::real))) xs)
      \<le> length (filter ((\<lambda>x. x = 1) \<circ> (\<lambda>x. if t1 \<le> 0 \<or> t1 \<le> x then 1 else (0::real))) xs)" for xs
    using assms(2) by (intro length_filter_mono) (auto split: if_splits)
  with assms(1) show ?thesis
    by (simp add: fst_calc_iou elems_binarize elems_calc_f1_copy filter_map)
qed

theorem binarize_threshold_monotone_witness:
  "valid example_heap example_pred \<and> (1 / 10 :: real) \<le> 2 / 5
   \<and> dims example_pred = dims example_truth
   \<and> length (filter (\<lambda>x. x = 1)
        (elems (fst (calc_iou example_heap example_pred example_truth (2 / 5))) example_pred))
     \<le> length (filter (\<lambda>x. x = 1)
        (elems (fst (calc_iou example_heap example_pred example_truth (1 / 10))) example_pred))
   \<and> length (filter (\<lambda>x. x = 1)
        (elems (fst (calc_f1 example_astype_uint8 example_heap example_pred example_truth (2 / 5)))
           (snd (copy example_heap example_pred))))
     \<le> length (filter (\<lambda>x. x = 1)
        (elems (fst (calc_f1 example_astype_uint8 example_heap example_pred example_truth (1 / 10)))
           (snd (copy example_heap example_pred))))"
proof -
  have le: "(1 / 10 :: real) \<le> 2 / 5" by simp
  have d: "dims example_pred = dims example_truth"
    by (simp add: example_pred_def example_truth_def)
  from binarize_threshold_monotone
    [OF valid_example(1) le, of example_truth example_astype_uint8] d
  show ?thesis using valid_example(1) le by simp
qed

text \<open>
  Claim C10. A pixel exactly equal to the threshold is mapped to 1 (foreground) by the
  binarization of the metric helpers \<open>calc_iou\<close> and \<open>calc_f1\<close>, and to 0 (background) by
  the mask transform of \<open>play_video_removed\<close>: the two disagree on such a pixel.
\<close>

theorem threshold_tie_disagrees:
  assumes "valid h pred" and "j < prod_list (dims pred)" and "elems h pred ! j = thresh"
    and "k < length video_i" and "k < length bg" and "video_i ! k - bg ! k = thresh"
  shows "elems (fst (calc_iou h pred truth thresh)) pred ! j = 1
       \<and> (dims pred = dims truth \<longrightarrow>
            elems (fst (calc_f1 astype_uint8 h pred truth thresh)) (snd (copy h pred)) ! j = 1)
       \<and> play_video_removed_frame True thresh video_i bg ! k = 0"
proof -
  have "map (\<lambda>x. if thresh \<le> 0 \<or> thresh \<le> x then 1 else (0::real)) (elems h pred) ! j = 1"
    using assms(1-3) by (simp add: length_elems)
  moreover have "play_video_removed_frame True thresh video_i bg ! k = 0"
    using assms(4-6) by (simp add: play_video_removed_frame_def Let_def)
  ultimately show ?thesis
    using assms(1) by (simp add: fst_calc_iou elems_binarize elems_calc_f1_copy)
qed

theorem threshold_tie_disagrees_witness:
  "valid example_heap example_pred \<and> 3 < prod_list (dims example_pred)
   \<and> elems example_heap example_pred ! 3 = 1 / 10
   \<and> (0::nat) < length [3 / 10, 1 / 2 :: real] \<and> (0::nat) < length [1 / 5, 1 / 5 :: real]
   \<and> [3 / 10, 1 / 2 :: real] ! 0 - [1 / 5, 1 / 5] ! 0 = 1 / 10
   \<and> dims example_pred = dims example_truth
   \<and> elems (fst (calc_iou example_heap example_pred example_truth (1 / 10))) example_pred ! 3 = 1
   \<and> elems (fst (calc_f1 example_astype_uint8 example_heap example_pred example_truth (1 / 10)))
        (snd (copy example_heap example_pred)) ! 3 = 1
   \<and> play_video_removed_frame True (1 / 10) [3 / 10, 1 / 2] [1 / 5, 1 / 5] ! 0 = 0"
proof -
  have a: "3 < prod_list (dims example_pred)"
    and b: "elems example_heap example_pred ! 3 = 1 / 10"
    by (simp_all add: example_pred_def example_heap_def elems_def)
  have c: "(0::nat) < length [3 / 10, 1 / 2 :: real]" "(0::nat) < length [1 / 5, 1 / 5 :: real]"
    and d: "[3 / 10, 1 / 2 :: real] ! 0 - [1 / 5, 1 / 5] ! 0 = 1 / 10"
    by simp_all
  have e: "dims example_pred = dims example_truth"
    by (simp add: example_pred_def example_truth_def)
  from threshold_tie_disagrees
    [OF valid_example(1) a b c d, of example_truth example_astype_uint8] e
  show ?thesis using valid_example(1) a b c d by simp
qed

section \<open>calc_iou on binary masks\<close>

lemma calc_iou_eq:
  "dims pred = dims truth \<Longrightarrow>
   calc_iou h pred truth t =
     (binarize h pred t,
      Inr (iou_of (elems (binarize h pred t) pred) (elems (binarize h pred t) truth)))"
  by (simp add: calc_iou_def iou_of_def Let_def)

text \<open>With a threshold in \<open>(0, 1]\<close> the binarization rewrites a binary mask with itself.\<close>

lemma binarize_binary_id:
  assumes "valid h r" and "\<forall>x\<in>set (elems h r). x = 0 \<or> x = 1" and "0 < t" and "t \<le> 1"
  shows "binarize h r t = h"
proof -
  have "map (\<lambda>x. if t \<le> 0 \<or> t \<le> x then 1 else 0) (elems h r) = elems h r"
    using assms(2-4) by (intro map_idI) auto
  with assms(1) show ?thesis by (simp add: binarize_store store_elems)
qed

lemma iou_of_range: "0 \<le> iou_of ps ts \<and> iou_of ps ts \<le> 1"
proof -
  have "length (filter (\<lambda>(p, t). p \<noteq> 0 \<and> t \<noteq> 0) (zip ps ts))
      \<le> length (filter (\<lambda>(p, t). p \<noteq> 0 \<or> t \<noteq> 0) (zip ps ts))"
    by (intro length_filter_mono) auto
  then show ?thesis by (simp add: iou_of_def Let_def)
qed

lemma iou_of_same:
  assumes "1 \<in> set ps"
  shows "iou_of ps ps = 1"
proof -
  have "filter (\<lambda>x. x \<noteq> 0) ps \<noteq> []"
    using assms by (auto simp: filter_empty_conv intro!: bexI[where x = 1])
  then show ?thesis
    by (simp add: iou_of_def Let_def zip_same_conv_map filter_map comp_def)
qed

lemma iou_of_no_overlap:
  assumes "\<forall>j<length ps. j < length ts \<longrightarrow> \<not> (ps ! j \<noteq> 0 \<and> ts ! j \<noteq> 0)"
  shows "iou_of ps ts = 0"
proof -
  have "filter (\<lambda>(p, t). p \<noteq> 0 \<and> t \<noteq> 0) (zip ps ts) = []"
    using assms by (auto simp: filter_empty_conv in_set_zip)
  then show ?thesis by (simp add: iou_of_def Let_def)
qed

text \<open>
  Claim C3, as the code has it. For \<open>pred\<close> and \<open>truth\<close> of the same shape \<open>calc_iou\<close>
  returns a value \<open>r\<close> with \<open>0 \<le> r \<le> 1\<close>, at every threshold. For binary masks and a
  threshold in \<open>(0, 1]\<close> (the default 0.1 is one), \<open>r = 1\<close> when \<open>pred\<close> equals \<open>truth\<close> everywhere and has a positive pixel;
  \<open>r = 0\<close> when no pixel is positive in both and \<open>truth\<close> has a positive pixel; and
  \<open>r = 0\<close> when neither has a positive pixel (the union is empty and the fallback value
  is returned).
\<close>

theorem calc_iou_binary:
  assumes "valid h pred" and "valid h truth" and "dims pred = dims truth"
  shows "\<exists>r. snd (calc_iou h pred truth thresh) = Inr r \<and> 0 \<le> r \<and> r \<le> 1
     \<and> ((\<forall>x\<in>set (elems h pred). x = 0 \<or> x = 1) \<and> (\<forall>x\<in>set (elems h truth). x = 0 \<or> x = 1)
          \<and> 0 < thresh \<and> thresh \<le> 1 \<longrightarrow>
         (elems h pred = elems h truth \<and> 1 \<in> set (elems h pred) \<longrightarrow> r = 1)
       \<and> ((\<forall>j<prod_list (dims pred). \<not> (elems h pred ! j = 1 \<and> elems h truth ! j = 1))
            \<and> 1 \<in> set (elems h truth) \<longrightarrow> r = 0)
       \<and> (1 \<notin> set (elems h pred) \<and> 1 \<notin> set (elems h truth) \<longrightarrow> r = 0))"
proof (cases "(\<forall>x\<in>set (elems h pred). x = 0 \<or> x = 1) \<and> (\<forall>x\<in>set (elems h truth). x = 0 \<or> x = 1)
          \<and> 0 < thresh \<and> thresh \<le> 1")
  case False
  have "snd (calc_iou h pred truth thresh) =
      Inr (iou_of (elems (binarize h pred thresh) pred) (elems (binarize h pred thresh) truth))"
    using assms(3) by (simp add: calc_iou_eq)
  with False iou_of_range show ?thesis by blast
next
  case True
  then have bp: "\<forall>x\<in>set (elems h pred). x = 0 \<or> x = 1"
    and bt: "\<forall>x\<in>set (elems h truth). x = 0 \<or> x = 1"
    and t0: "0 < thresh" and t1: "thresh \<le> 1"
    by simp_all
  let ?ps = "elems h pred" and ?ts = "elems h truth"
  have id: "binarize h pred thresh = h"
    using assms(1) bp t0 t1 by (rule binarize_binary_id)
  have res: "snd (calc_iou h pred truth thresh) = Inr (iou_of ?ps ?ts)"
    using assms(3) by (simp add: calc_iou_eq id)
  have len: "length ?ps = prod_list (dims pred)" "length ?ts = prod_list (dims pred)"
    using assms(1-3) by (simp_all add: length_elems)
  have one: "?ps = ?ts \<and> 1 \<in> set ?ps \<longrightarrow> iou_of ?ps ?ts = 1"
    using iou_of_same by auto
  have none: "(\<forall>j<prod_list (dims pred). \<not> (?ps ! j = 1 \<and> ?ts ! j = 1)) \<longrightarrow> iou_of ?ps ?ts = 0"
  proof
    assume a: "\<forall>j<prod_list (dims pred). \<not> (?ps ! j = 1 \<and> ?ts ! j = 1)"
    have "\<not> (?ps ! j \<noteq> 0 \<and> ?ts ! j \<noteq> 0)" if "j < length ?ps" for j
    proof -
      have "?ps ! j = 0 \<or> ?ps ! j = 1" "?ts ! j = 0 \<or> ?ts ! j = 1"
        using bp bt that len by (auto simp: all_set_conv_all_nth)
      with a that len show ?thesis by auto
    qed
    then show "iou_of ?ps ?ts = 0" by (intro iou_of_no_overlap) auto
  qed
  have empty: "1 \<notin> set ?ps \<and> 1 \<notin> set ?ts \<longrightarrow> iou_of ?ps ?ts = 0"
  proof
    assume a: "1 \<notin> set ?ps \<and> 1 \<notin> set ?ts"
    have "\<not> (?ps ! j \<noteq> 0 \<and> ?ts ! j \<noteq> 0)" if "j < length ?ps" for j
      using bp a that by (metis nth_mem)
    then show "iou_of ?ps ?ts = 0" by (intro iou_of_no_overlap) auto
  qed
  from res iou_of_range[of ?ps ?ts] one none empty show ?thesis by auto
qed

theorem calc_iou_binary_witness:
  "valid example_heap example_mask \<and> valid example_heap example_truth
   \<and> dims example_mask = dims example_truth
   \<and> list_all (\<lambda>x. x = 0 \<or> x = 1) (elems example_heap example_mask)
   \<and> list_all (\<lambda>x. x = 0 \<or> x = 1) (elems example_heap example_truth)
   \<and> (0::real) < 1 / 10 \<and> (1 / 10 :: real) \<le> 1
   \<and> elems example_heap example_mask = elems example_heap example_truth
   \<and> 1 \<in> set (elems example_heap example_mask)
   \<and> snd (calc_iou example_heap example_mask example_truth (1 / 10)) = Inr 1"
proof -
  have d: "dims example_mask = dims example_truth"
    by (simp add: example_mask_def example_truth_def)
  have b: "\<forall>x\<in>set (elems example_heap example_mask). x = 0 \<or> x = 1"
    "\<forall>x\<in>set (elems example_heap example_truth). x = 0 \<or> x = 1"
    by (simp_all add: elems_example)
  have t: "(0::real) < 1 / 10" "(1 / 10 :: real) \<le> 1" by simp_all
  have e: "elems example_heap example_mask = elems example_heap example_truth"
    "1 \<in> set (elems example_heap example_mask)"
    by (simp_all add: elems_example)
  from calc_iou_binary [OF valid_example(3) valid_example(2) d, of "1 / 10"] b t e
  have "snd (calc_iou example_heap example_mask example_truth (1 / 10)) = Inr 1"
    by auto
  with valid_example d t e show ?thesis by (simp add: elems_example)
qed

text \<open>
  The claim as the specification words it, for every call, fails at threshold 0, the
  first value of the notebook's sweep: the binarization turns every element of a binary
  \<open>pred\<close> into 1. For \<open>pred = [1, 0]\<close> and \<open>truth = [0, 1]\<close>, which share no positive
  pixel, \<open>calc_iou\<close> returns \<open>1/2\<close> and not 0; for \<open>pred = truth = [1, 0]\<close> in two arrays
  it returns \<open>1/2\<close> and not 1.
\<close>

theorem calc_iou_zero_threshold_counterexample:
  "elems [[1, 0], [0, 1], [1, 0]] \<lparr>buf = 0, off = 0, dims = [1, 2]\<rparr> = [1, 0]
   \<and> elems [[1, 0], [0, 1], [1, 0]] \<lparr>buf = 1, off = 0, dims = [1, 2]\<rparr> = [0, 1]
   \<and> elems [[1, 0], [0, 1], [1, 0]] \<lparr>buf = 2, off = 0, dims = [1, 2]\<rparr> = [1, 0]
   \<and> snd (calc_iou [[1, 0], [0, 1], [1, 0]] \<lparr>buf = 0, off = 0, dims = [1, 2]\<rparr>
            \<lparr>buf = 1, off = 0, dims = [1, 2]\<rparr> 0) = Inr (1 / 2)
   \<and> snd (calc_iou [[1, 0], [0, 1], [1, 0]] \<lparr>buf = 0, off = 0, dims = [1, 2]\<rparr>
            \<lparr>buf = 2, off = 0, dims = [1, 2]\<rparr> 0) = Inr (1 / 2)"
  by (simp add: calc_iou_def binarize_def store_def elems_def Let_def)

section \<open>What calc_iou and calc_miou write\<close>



lemma buf_frame [simp]: "buf (frame r i) = buf r"
  by (simp add: frame_def)






section \<open>calc_miou is the mean of the per-frame values\<close>

lemma dims_frame [simp]: "dims (frame r i) = tl (dims r)"
  by (simp add: frame_def)

lemma off_frame: "off (frame r i) = off r + i * prod_list (tl (dims r))"
  by (simp add: frame_def)

lemma valid_frame:
  assumes "valid h r" and "dims r = n # ds" and "i < n"
  shows "valid h (frame r i)"
proof -
  have "Suc i * prod_list ds \<le> n * prod_list ds"
    using assms(3) by (intro mult_le_mono1) simp
  with assms(1,2) show ?thesis
    by (simp add: valid_def frame_def)
qed

lemma frames_disjoint:
  assumes "i \<noteq> j"
  shows "off (frame r j) + prod_list (dims (frame r j)) \<le> off (frame r i)
       \<or> off (frame r i) + prod_list (dims (frame r i)) \<le> off (frame r j)"
proof (cases "i < j")
  case True
  then have "Suc i * prod_list (tl (dims r)) \<le> j * prod_list (tl (dims r))"
    by (intro mult_le_mono1) simp
  then show ?thesis by (simp add: frame_def)
next
  case False
  with assms have "Suc j * prod_list (tl (dims r)) \<le> i * prod_list (tl (dims r))"
    by (intro mult_le_mono1) simp
  then show ?thesis by (simp add: frame_def)
qed

lemma elems_store_apart:
  assumes "valid h r" and "length xs = prod_list (dims r)" and "disjoint_views r r'"
  shows "elems (store h r xs) r' = elems h r'"
proof (cases "buf r' = buf r")
  case True
  with assms show ?thesis
    by (intro elems_store_disjoint) (auto simp: disjoint_views_def)
next
  case False
  then show ?thesis by (rule elems_store_other)
qed

lemma disjoint_views_frame:
  assumes "disjoint_views r r'" and "dims r = n # ds" and "i < n"
  shows "disjoint_views (frame r i) r'"
proof -
  have "Suc i * prod_list ds \<le> n * prod_list ds"
    using assms(3) by (intro mult_le_mono1) simp
  then have "i * prod_list ds + prod_list ds \<le> n * prod_list ds" by simp
  with assms(1,2) show ?thesis
    by (auto simp: disjoint_views_def frame_def)
qed

lemma disjoint_views_sym: "disjoint_views r r' \<Longrightarrow> disjoint_views r' r"
  by (auto simp: disjoint_views_def)

lemma calc_iou_frame:
  assumes "valid g p" and "disjoint_views p truth" and "dims p = dims truth"
  shows "calc_iou g p truth t =
     (store g p (map (\<lambda>x. if t \<le> 0 \<or> t \<le> x then 1 else 0) (elems g p)),
      Inr (iou_of (map (\<lambda>x. if t \<le> 0 \<or> t \<le> x then 1 else 0) (elems g p)) (elems g truth)))"
  using assms
  by (simp add: calc_iou_eq binarize_store elems_store_same elems_store_apart length_elems)

lemma miou_loop_sum:
  assumes "valid g p" and "valid g truth" and "buf truth \<noteq> buf p"
    and "dims p = n # ds" and "dims truth = n # ds" and "2 \<le> length ds"
    and "distinct ixs" and "\<forall>i\<in>set ixs. i < n"
  shows "snd (miou_loop g p truth t ixs acc) =
     Inr (acc + sum_list (map (\<lambda>i. iou_of
            (map (\<lambda>x. if t \<le> 0 \<or> t \<le> x then 1 else 0) (elems g (frame p i)))
            (elems g (frame truth i))) ixs))"
  using assms(1,2,7,8)
proof (induction ixs arbitrary: g acc)
  case Nil
  then show ?case by simp
next
  case (Cons i ixs)
  let ?b = "\<lambda>x. if t \<le> 0 \<or> t \<le> x then 1 else (0::real)"
  let ?g1 = "store g (frame p i) (map ?b (elems g (frame p i)))"
  have i: "i < n" using Cons.prems by simp
  have vf: "valid g (frame p i)"
    using Cons.prems(1) assms(4) i by (rule valid_frame)
  have len: "length (map ?b (elems g (frame p i))) = prod_list (dims (frame p i))"
    using vf by (simp add: length_elems)
  have step: "calc_iou g (frame p i) (frame truth i) t =
      (?g1, Inr (iou_of (map ?b (elems g (frame p i))) (elems g (frame truth i))))"
    using vf assms(3-5) by (intro calc_iou_frame) (simp_all add: disjoint_views_def)
  have v1: "valid ?g1 p" "valid ?g1 truth"
    using vf len Cons.prems(1,2) by (simp_all add: valid_store)
  have same: "elems ?g1 (frame p j) = elems g (frame p j)
            \<and> elems ?g1 (frame truth j) = elems g (frame truth j)" if "j \<in> set ixs" for j
  proof -
    from that Cons.prems(3) have "i \<noteq> j" by auto
    then have "elems ?g1 (frame p j) = elems g (frame p j)"
      using vf len frames_disjoint[of i j p] by (intro elems_store_disjoint) simp_all
    moreover have "elems ?g1 (frame truth j) = elems g (frame truth j)"
      using assms(3) by (intro elems_store_other) simp
    ultimately show ?thesis by simp
  qed
  have "snd (miou_loop ?g1 p truth t ixs (acc + iou_of (map ?b (elems g (frame p i))) (elems g (frame truth i)))) =
     Inr (acc + iou_of (map ?b (elems g (frame p i))) (elems g (frame truth i))
        + sum_list (map (\<lambda>j. iou_of (map ?b (elems ?g1 (frame p j))) (elems ?g1 (frame truth j))) ixs))"
    using v1 Cons.prems(3,4) by (intro Cons.IH) simp_all
  also have "map (\<lambda>j. iou_of (map ?b (elems ?g1 (frame p j))) (elems ?g1 (frame truth j))) ixs
      = map (\<lambda>j. iou_of (map ?b (elems g (frame p j))) (elems g (frame truth j))) ixs"
    using same by (intro map_cong) simp_all
  finally show ?case
    using assms(4,6) step by (simp add: add.assoc)
qed

lemma elems_frame_copy:
  assumes "valid h pred" and "dims pred = n # ds" and "i < n"
  shows "elems (h @ [elems h pred]) (frame \<lparr>buf = length h, off = 0, dims = dims pred\<rparr> i)
       = elems h (frame pred i)"
proof -
  have "Suc i * prod_list ds \<le> n * prod_list ds"
    using assms(3) by (intro mult_le_mono1) simp
  then have "i * prod_list ds + prod_list ds \<le> n * prod_list ds" by simp
  then show ?thesis
    using assms(1,2)
    by (simp add: elems_def frame_def valid_def drop_take min_def add.commute)
qed

text \<open>
  Claim C4, as the code has it. For \<open>pred\<close> and \<open>truth\<close> of the same shape \<open>(n, ...)\<close>
  with at least one frame (arrays of three or more dimensions) that do not overlap in
  memory, \<open>calc_miou\<close> returns the arithmetic mean over the frame indices \<open>i < n\<close> of the
  value \<open>calc_iou\<close> returns on frame \<open>i\<close> of \<open>pred\<close> and frame \<open>i\<close> of \<open>truth\<close> at the
  same threshold. When the shapes differ, \<open>calc_miou\<close> fails on its assertion, before
  it touches the heap.
\<close>

theorem calc_miou_mean:
  "(valid h pred \<and> valid h truth \<and> disjoint_views pred truth
      \<and> dims pred = n # ds \<and> dims truth = n # ds \<and> 0 < n \<and> 2 \<le> length ds
    \<longrightarrow> (\<exists>ious. length ious = n
          \<and> (\<forall>i<n. snd (calc_iou h (frame pred i) (frame truth i) thresh) = Inr (ious ! i))
          \<and> snd (calc_miou h pred truth thresh) = Inr (sum_list ious / real n)))
   \<and> (dims pred \<noteq> dims truth \<longrightarrow> calc_miou h pred truth thresh = (h, Inl AssertionError))"
proof (intro conjI impI)
  assume "dims pred \<noteq> dims truth"
  then show "calc_miou h pred truth thresh = (h, Inl AssertionError)"
    by (simp add: calc_miou_def)
next
  assume a: "valid h pred \<and> valid h truth \<and> disjoint_views pred truth
      \<and> dims pred = n # ds \<and> dims truth = n # ds \<and> 0 < n \<and> 2 \<le> length ds"
  then have vh: "valid h pred" and vt0: "valid h truth" and ne: "disjoint_views pred truth"
    and dp: "dims pred = n # ds" and dt: "dims truth = n # ds" and n: "0 < n"
    and ds: "2 \<le> length ds"
    by simp_all
  let ?b = "\<lambda>x. if thresh \<le> 0 \<or> thresh \<le> x then 1 else (0::real)"
  let ?v = "\<lambda>i. iou_of (map ?b (elems h (frame pred i))) (elems h (frame truth i))"
  let ?p = "\<lparr>buf = length h, off = 0, dims = dims pred\<rparr>"
  let ?g = "h @ [elems h pred]"
  have each: "snd (calc_iou h (frame pred i) (frame truth i) thresh) = Inr (?v i)" if "i < n" for i
  proof -
    have "valid h (frame pred i)" using vh dp that by (rule valid_frame)
    moreover have "disjoint_views (frame pred i) (frame truth i)"
    proof -
      have "disjoint_views truth pred" using ne by (rule disjoint_views_sym)
      then have "disjoint_views (frame truth i) pred" using dt that by (rule disjoint_views_frame)
      then have "disjoint_views pred (frame truth i)" by (rule disjoint_views_sym)
      then show ?thesis using dp that by (rule disjoint_views_frame)
    qed
    ultimately show ?thesis using dp dt by (subst calc_iou_frame) simp_all
  qed
  have "length (elems h pred) = prod_list (dims pred)"
    using vh by (simp add: length_elems)
  then have vp: "valid ?g ?p"
    by (simp add: valid_def)
  have vt: "valid ?g truth"
    using vt0 by (simp add: valid_def nth_append)
  have bt: "buf truth \<noteq> buf ?p"
    using vt0 by (simp add: valid_def)
  have "snd (miou_loop ?g ?p truth thresh [0..<n] 0) =
     Inr (0 + sum_list (map (\<lambda>i. iou_of (map ?b (elems ?g (frame ?p i))) (elems ?g (frame truth i))) [0..<n]))"
    using vp vt bt dp dt ds by (intro miou_loop_sum[where ds = ds]) auto
  also have "map (\<lambda>i. iou_of (map ?b (elems ?g (frame ?p i))) (elems ?g (frame truth i))) [0..<n]
      = map ?v [0..<n]"
  proof (intro map_cong refl)
    fix i assume "i \<in> set [0..<n]"
    then have i: "i < n" by simp
    have "elems ?g (frame ?p i) = elems h (frame pred i)"
      using vh dp i by (rule elems_frame_copy)
    moreover have "elems ?g (frame truth i) = elems h (frame truth i)"
      using vt0 by (simp add: elems_def valid_def nth_append)
    ultimately show "iou_of (map ?b (elems ?g (frame ?p i))) (elems ?g (frame truth i)) = ?v i"
      by simp
  qed
  finally have loop: "snd (miou_loop ?g ?p truth thresh [0..<n] 0) = Inr (sum_list (map ?v [0..<n]))"
    by simp
  obtain g' where g': "miou_loop ?g ?p truth thresh [0..<n] 0 = (g', Inr (sum_list (map ?v [0..<n])))"
    using loop by (cases "miou_loop ?g ?p truth thresh [0..<n] 0") auto
  have res: "snd (calc_miou h pred truth thresh) = Inr (sum_list (map ?v [0..<n]) / real n)"
    using dp dt n g' by (simp add: calc_miou_def copy_def)
  show "\<exists>ious. length ious = n
          \<and> (\<forall>i<n. snd (calc_iou h (frame pred i) (frame truth i) thresh) = Inr (ious ! i))
          \<and> snd (calc_miou h pred truth thresh) = Inr (sum_list ious / real n)"
    using each res by (intro exI[of _ "map ?v [0..<n]"]) simp
qed


theorem calc_miou_mean_witness:
  "valid example_heap example_pred \<and> valid example_heap example_truth
   \<and> disjoint_views example_pred example_truth
   \<and> dims example_pred = 2 # [1, 2] \<and> dims example_truth = 2 # [1, 2]
   \<and> (0::nat) < 2 \<and> 2 \<le> length [1::nat, 2]
   \<and> snd (calc_iou example_heap (frame example_pred 0) (frame example_truth 0) (1 / 10)) = Inr 1
   \<and> snd (calc_iou example_heap (frame example_pred 1) (frame example_truth 1) (1 / 10))
       = Inr (1 / 2)
   \<and> snd (calc_miou example_heap example_pred example_truth (1 / 10)) = Inr (3 / 4)
   \<and> dims example_pred \<noteq> dims example_bg
   \<and> calc_miou example_heap example_pred example_bg (1 / 10) = (example_heap, Inl AssertionError)"
proof -
  have hyps: "valid example_heap example_pred \<and> valid example_heap example_truth
      \<and> disjoint_views example_pred example_truth
      \<and> dims example_pred = 2 # [1, 2] \<and> dims example_truth = 2 # [1, 2]
      \<and> (0::nat) < 2 \<and> 2 \<le> length [1::nat, 2]"
    using valid_example by (simp add: example_pred_def example_truth_def disjoint_views_def)
  have c0: "snd (calc_iou example_heap (frame example_pred 0) (frame example_truth 0) (1 / 10))
      = Inr 1"
    by (simp add: calc_iou_def binarize_def store_def elems_def frame_def Let_def
        example_heap_def example_pred_def example_truth_def)
  have c1: "snd (calc_iou example_heap (frame example_pred 1) (frame example_truth 1) (1 / 10))
      = Inr (1 / 2)"
    by (simp add: calc_iou_def binarize_def store_def elems_def frame_def Let_def
        example_heap_def example_pred_def example_truth_def)
  have ne: "dims example_pred \<noteq> dims example_bg"
    by (simp add: example_pred_def example_bg_def)
  note th = calc_miou_mean [of example_heap example_pred example_truth 2 "[1, 2]" "1 / 10"]
  from th hyps obtain ious where ious: "length ious = 2"
    "\<forall>i<2. snd (calc_iou example_heap (frame example_pred i) (frame example_truth i) (1 / 10))
        = Inr (ious ! i)"
    "snd (calc_miou example_heap example_pred example_truth (1 / 10)) = Inr (sum_list ious / real 2)"
    by blast
  from ious(2) c0 c1 have "ious ! 0 = 1" "ious ! 1 = 1 / 2"
    by (metis Inr_inject One_nat_def lessI less_2_cases_iff zero_less_numeral)+
  moreover from ious(1) obtain a b where "ious = [a, b]"
    by (metis One_nat_def Suc_1 length_0_conv length_Suc_conv)
  ultimately have "ious = [1, 1 / 2]" by simp
  with ious(3) have m: "snd (calc_miou example_heap example_pred example_truth (1 / 10)) = Inr (3 / 4)"
    by simp
  from calc_miou_mean [of example_heap example_pred example_bg 2 "[1, 2]" "1 / 10"] ne
  have "calc_miou example_heap example_pred example_bg (1 / 10) = (example_heap, Inl AssertionError)"
    by blast
  with hyps c0 c1 m ne show ?thesis by simp
qed

text \<open>
  The claim as the specification words it fails when \<open>pred\<close> and \<open>truth\<close> are the same
  array. For \<open>a = [[[1/20, 1/2]]]\<close> and threshold \<open>1/10\<close>, \<open>calc_miou(a, a)\<close> compares
  the binarized copy \<open>[0, 1]\<close> with \<open>a\<close> itself and returns \<open>1/2\<close>, while \<open>calc_iou\<close> on
  frame 0 of \<open>a\<close> and frame 0 of \<open>a\<close> binarizes both at once and returns 1.
\<close>

theorem calc_miou_same_array_counterexample:
  "valid alias_heap alias_array \<and> dims alias_array = [1, 1, 2]
   \<and> snd (calc_miou alias_heap alias_array alias_array (1 / 10)) = Inr (1 / 2)
   \<and> snd (calc_iou alias_heap (frame alias_array 0) (frame alias_array 0) (1 / 10)) = Inr 1"
  by (simp add: calc_miou_def copy_def calc_iou_def binarize_def store_def elems_def frame_def
      valid_def Let_def alias_heap_def alias_array_def)

section \<open>get_video_removed writes into its argument\<close>

lemma length_concat_const:
  "\<forall>r\<in>set rows. length r = l \<Longrightarrow> length (concat rows) = length rows * l"
  by (induction rows) simp_all

lemma length_chunk:
  assumes "length xs = d * m" and "k < d"
  shows "length (take m (drop (k * m) xs)) = m"
proof -
  have "Suc k * m \<le> d * m" using assms(2) by (intro mult_le_mono1) simp
  with assms(1) show ?thesis by simp
qed

lemma length_bcast:
  assumes "list_all2 (\<lambda>d b. b = d \<or> b = 1) ds bs" and "length xs = prod_list bs"
  shows "length (bcast ds bs xs) = prod_list ds"
  using assms
proof (induction ds bs arbitrary: xs rule: list_all2_induct)
  case Nil
  then show ?case by simp
next
  case (Cons d ds b bs)
  show ?case
  proof (cases "b = d")
    case True
    have "length (bcast ds bs (take (prod_list bs) (drop (k * prod_list bs) xs))) = prod_list ds"
      if "k < d" for k
      using Cons.prems True that by (intro Cons.IH length_chunk[where d = d]) simp_all
    then have "length (concat (map (\<lambda>k. bcast ds bs (take (prod_list bs) (drop (k * prod_list bs) xs)))
                     [0..<d])) = length [0..<d] * prod_list ds"
      by (intro length_concat_const[THEN trans]) auto
    with True show ?thesis by simp
  next
    case False
    with Cons.hyps have b: "b = 1" by simp
    with Cons.prems have "length (bcast ds bs xs) = prod_list ds"
      by (intro Cons.IH) simp
    with False show ?thesis by (simp add: length_concat_const[where l = "prod_list ds"])
  qed
qed

lemma length_broadcast_to:
  assumes "broadcastable ds bs" and "length xs = prod_list bs"
  shows "length (broadcast_to ds bs xs) = prod_list ds"
  using assms
  by (auto simp: broadcastable_def broadcast_to_def pad_dims_def intro!: length_bcast)

lemma concat_chunks: "concat (map (\<lambda>k. take m (drop (k * m) xs)) [0..<d]) = take (d * m) xs"
proof (induction d)
  case 0
  then show ?case by simp
next
  case (Suc d)
  have "take (d * m) xs @ take m (drop (d * m) xs) = take (d * m + m) xs"
    by (simp add: take_add)
  with Suc show ?case by (simp add: add.commute)
qed

lemma bcast_same: "length xs = prod_list ds \<Longrightarrow> bcast ds ds xs = xs"
proof (induction ds arbitrary: xs)
  case Nil
  then show ?case by simp
next
  case (Cons d ds)
  have "bcast ds ds (take (prod_list ds) (drop (k * prod_list ds) xs))
      = take (prod_list ds) (drop (k * prod_list ds) xs)" if "k < d" for k
    using Cons.prems that by (intro Cons.IH length_chunk[where d = d]) simp_all
  then have eq: "map (\<lambda>k. bcast ds ds (take (prod_list ds) (drop (k * prod_list ds) xs))) [0..<d]
      = map (\<lambda>k. take (prod_list ds) (drop (k * prod_list ds) xs)) [0..<d]"
    by simp
  have "bcast (d # ds) (d # ds) xs =
      concat (map (\<lambda>k. bcast ds ds (take (prod_list ds) (drop (k * prod_list ds) xs))) [0..<d])"
    by simp
  also have "\<dots> = concat (map (\<lambda>k. take (prod_list ds) (drop (k * prod_list ds) xs)) [0..<d])"
    by (simp only: eq)
  also have "\<dots> = take (d * prod_list ds) xs"
    by (rule concat_chunks)
  also have "\<dots> = xs"
    using Cons.prems by simp
  finally show ?case .
qed

lemma broadcast_to_same: "length xs = prod_list ds \<Longrightarrow> broadcast_to ds ds xs = xs"
  by (simp add: broadcast_to_def pad_dims_def bcast_same)

lemma broadcastable_same: "broadcastable ds ds"
  by (simp add: broadcastable_def pad_dims_def list_all2_same)

lemma removed_loop_effect:
  assumes "dims video = n # ds" and "2 \<le> length ds" and "broadcastable ds (dims bg)"
    and "disjoint_views video bg"
    and "valid g video" and "valid g bg" and "distinct ixs" and "\<forall>i\<in>set ixs. i < n"
  shows "snd (removed_loop g video bg ixs) = Inr ()
     \<and> length (fst (removed_loop g video bg ixs)) = length g
     \<and> (\<forall>r. valid g r \<and> disjoint_views video r \<longrightarrow>
            elems (fst (removed_loop g video bg ixs)) r = elems g r)
     \<and> (\<forall>j<n. elems (fst (removed_loop g video bg ixs)) (frame video j) =
           (if j \<in> set ixs
            then map2 (-) (elems g (frame video j)) (broadcast_to ds (dims bg) (elems g bg))
            else elems g (frame video j)))"
  using assms(5-8)
proof (induction ixs arbitrary: g)
  case Nil
  then show ?case by simp
next
  case (Cons i ixs)
  let ?bs = "broadcast_to ds (dims bg) (elems g bg)"
  let ?xs = "map2 (-) (elems g (frame video i)) ?bs"
  let ?g1 = "store g (frame video i) ?xs"
  let ?g' = "fst (removed_loop ?g1 video bg ixs)"
  have i: "i < n" using Cons.prems by simp
  have vf: "valid g (frame video i)"
    using Cons.prems(1) assms(1) i by (rule valid_frame)
  have "length ?bs = prod_list ds"
    using assms(3) Cons.prems(2) by (intro length_broadcast_to) (simp_all add: length_elems)
  then have len: "length ?xs = prod_list (dims (frame video i))"
    using vf assms(1) by (simp add: length_elems)
  have v1: "valid ?g1 video" "valid ?g1 bg"
    using vf len Cons.prems(1,2) by (simp_all add: valid_store)
  have apart: "elems ?g1 r = elems g r" if "disjoint_views video r" for r
    using vf len disjoint_views_frame[OF that assms(1) i] by (rule elems_store_apart)
  have bg1: "elems ?g1 bg = elems g bg"
    using assms(4) by (rule apart)
  have fr1: "elems ?g1 (frame video j) = (if j = i then ?xs else elems g (frame video j))" for j
  proof (cases "j = i")
    case True
    then show ?thesis using vf len by (simp add: elems_store_same)
  next
    case False
    then have "elems ?g1 (frame video j) = elems g (frame video j)"
      using vf len frames_disjoint[of i j video] by (intro elems_store_disjoint) simp_all
    with False show ?thesis by simp
  qed
  have unfold: "removed_loop g video bg (i # ixs) = removed_loop ?g1 video bg ixs"
    using assms(1-3) by simp
  have IH: "snd (removed_loop ?g1 video bg ixs) = Inr ()
     \<and> length ?g' = length ?g1
     \<and> (\<forall>r. valid ?g1 r \<and> disjoint_views video r \<longrightarrow> elems ?g' r = elems ?g1 r)
     \<and> (\<forall>j<n. elems ?g' (frame video j) =
           (if j \<in> set ixs
            then map2 (-) (elems ?g1 (frame video j)) (broadcast_to ds (dims bg) (elems ?g1 bg))
            else elems ?g1 (frame video j)))"
    using v1 Cons.prems(3,4) by (intro Cons.IH) simp_all
  have ni: "i \<notin> set ixs" using Cons.prems(3) by simp
  have others: "\<forall>r. valid g r \<and> disjoint_views video r \<longrightarrow> elems ?g' r = elems g r"
  proof (intro allI impI)
    fix r assume r: "valid g r \<and> disjoint_views video r"
    then have "valid ?g1 r" using vf len by (simp add: valid_store)
    with r IH have "elems ?g' r = elems ?g1 r" by blast
    with r apart show "elems ?g' r = elems g r" by simp
  qed
  have frames: "\<forall>j<n. elems ?g' (frame video j) =
           (if j \<in> set (i # ixs)
            then map2 (-) (elems g (frame video j)) (broadcast_to ds (dims bg) (elems g bg))
            else elems g (frame video j))"
    using IH ni by (auto simp: fr1 bg1)
  show ?case
    unfolding unfold using IH others frames by simp
qed

text \<open>
  Claim C9, as the code has it. For a \<open>video\<close> of three or more dimensions and a \<open>bg\<close>
  that broadcasts to the shape of a frame and does not overlap the video in memory,
  \<open>get_video_removed\<close> writes into the caller's \<open>video\<close> and returns that same array:
  after the call frame \<open>i\<close> of the caller's array holds the old frame minus \<open>bg\<close>
  (broadcast to the frame; \<open>bg\<close> itself when it has the shape of a frame), and \<open>bg\<close> and
  every other array that does not overlap the video are as they were. So the
  binarization in \<open>calc_iou\<close> is not the only write into an array passed by the caller.
\<close>

theorem get_video_removed_in_place:
  assumes "valid h video" and "valid h bg" and "disjoint_views video bg"
    and "dims video = n # ds" and "2 \<le> length ds" and "broadcastable ds (dims bg)"
  shows "snd (get_video_removed h video bg) = Inr video
     \<and> length (fst (get_video_removed h video bg)) = length h
     \<and> (\<forall>i<n. elems (fst (get_video_removed h video bg)) (frame video i) =
           map2 (-) (elems h (frame video i)) (broadcast_to ds (dims bg) (elems h bg)))
     \<and> (dims bg = ds \<longrightarrow>
          (\<forall>i<n. elems (fst (get_video_removed h video bg)) (frame video i) =
             map2 (-) (elems h (frame video i)) (elems h bg)))
     \<and> elems (fst (get_video_removed h video bg)) bg = elems h bg
     \<and> (\<forall>r. valid h r \<and> disjoint_views video r \<longrightarrow>
            elems (fst (get_video_removed h video bg)) r = elems h r)"
proof -
  let ?g = "fst (removed_loop h video bg [0..<n])"
  have loop: "snd (removed_loop h video bg [0..<n]) = Inr ()
     \<and> length ?g = length h
     \<and> (\<forall>r. valid h r \<and> disjoint_views video r \<longrightarrow> elems ?g r = elems h r)
     \<and> (\<forall>j<n. elems ?g (frame video j) =
           (if j \<in> set [0..<n]
            then map2 (-) (elems h (frame video j)) (broadcast_to ds (dims bg) (elems h bg))
            else elems h (frame video j)))"
    using assms(4,5,6,3,1,2) by (rule removed_loop_effect) auto
  obtain g where g: "removed_loop h video bg [0..<n] = (g, Inr ())"
    using loop by (cases "removed_loop h video bg [0..<n]") auto
  have res: "get_video_removed h video bg = (g, Inr video)"
    using assms(4) g by (simp add: get_video_removed_def)
  have fr: "\<forall>i<n. elems g (frame video i) =
           map2 (-) (elems h (frame video i)) (broadcast_to ds (dims bg) (elems h bg))"
    using loop g by simp
  have same: "dims bg = ds \<longrightarrow>
          (\<forall>i<n. elems g (frame video i) = map2 (-) (elems h (frame video i)) (elems h bg))"
  proof
    assume d: "dims bg = ds"
    then have "broadcast_to ds (dims bg) (elems h bg) = elems h bg"
      using assms(2) by (simp add: broadcast_to_same length_elems)
    with fr show "\<forall>i<n. elems g (frame video i) = map2 (-) (elems h (frame video i)) (elems h bg)"
      by simp
  qed
  have rest: "\<forall>r. valid h r \<and> disjoint_views video r \<longrightarrow> elems g r = elems h r"
    using loop g by simp
  then have bg: "elems g bg = elems h bg"
    using assms(2,3) by blast
  from res loop g fr same rest bg show ?thesis by simp
qed

theorem get_video_removed_in_place_witness:
  "valid example_heap example_pred \<and> valid example_heap example_row
   \<and> disjoint_views example_pred example_row
   \<and> dims example_pred = 2 # [1, 2] \<and> 2 \<le> length [1::nat, 2]
   \<and> broadcastable [1, 2] (dims example_row)
   \<and> broadcast_to [1, 2] (dims example_row) (elems example_heap example_row) = [0, 1]
   \<and> snd (get_video_removed example_heap example_pred example_row) = Inr example_pred
   \<and> elems (fst (get_video_removed example_heap example_pred example_row)) (frame example_pred 0)
       = [1 / 20, - 1 / 2]
   \<and> elems (fst (get_video_removed example_heap example_pred example_row)) (frame example_pred 1)
       = [3 / 10, - 9 / 10]
   \<and> elems (fst (get_video_removed example_heap example_pred example_row)) example_row = [0, 1]
   \<and> elems (fst (get_video_removed example_heap example_pred example_row)) example_truth
       = [0, 1, 1, 0]"
proof -
  have v: "valid example_heap example_row"
    by (simp add: valid_def example_heap_def example_row_def)
  have dj: "disjoint_views example_pred example_row"
    and d: "dims example_pred = 2 # [1, 2]" and l: "2 \<le> length [1::nat, 2]"
    by (simp_all add: example_pred_def example_row_def disjoint_views_def)
  have bc: "broadcastable [1, 2] (dims example_row)"
    by code_simp
  have bt: "broadcast_to [1, 2] (dims example_row) (elems example_heap example_row) = [0, 1]"
    by code_simp
  have dt: "disjoint_views example_pred example_truth"
    by (simp add: example_pred_def example_truth_def disjoint_views_def)
  note th = get_video_removed_in_place [OF valid_example(1) v dj d l bc]
  have e0: "map2 (-) (elems example_heap (frame example_pred 0)) [0, 1] = [1 / 20, - 1 / 2]"
    and e1: "map2 (-) (elems example_heap (frame example_pred 1)) [0, 1] = [3 / 10, - 9 / 10]"
    and er: "elems example_heap example_row = [0, 1]"
    by (simp_all add: elems_def frame_def example_heap_def example_pred_def example_row_def)
  from th have "elems (fst (get_video_removed example_heap example_pred example_row))
      (frame example_pred 0) = [1 / 20, - 1 / 2]"
    "elems (fst (get_video_removed example_heap example_pred example_row))
      (frame example_pred 1) = [3 / 10, - 9 / 10]"
    using e0 e1 bt by simp_all
  moreover from th er
  have "elems (fst (get_video_removed example_heap example_pred example_row)) example_row = [0, 1]"
    by simp
  moreover from th valid_example(2) dt
  have "elems (fst (get_video_removed example_heap example_pred example_row)) example_truth
      = [0, 1, 1, 0]"
    by (simp add: elems_example)
  ultimately show ?thesis using th valid_example(1) v dj d l bc bt by simp
qed

text \<open>
  The claim as the specification words it fails: a video of one frame \<open>[1, 1]\<close> and the
  background \<open>[1/2, 1/4]\<close> leave \<open>[1/2, 3/4]\<close> in the caller's video array.
\<close>

theorem get_video_removed_unchanged_counterexample:
  "elems [[1, 1], [1 / 2, 1 / 4]] \<lparr>buf = 0, off = 0, dims = [1, 1, 2]\<rparr> = [1, 1]
   \<and> elems (fst (get_video_removed [[1, 1], [1 / 2, 1 / 4]]
                   \<lparr>buf = 0, off = 0, dims = [1, 1, 2]\<rparr> \<lparr>buf = 1, off = 0, dims = [1, 2]\<rparr>))
        \<lparr>buf = 0, off = 0, dims = [1, 1, 2]\<rparr> = [1 / 2, 3 / 4]"
  by code_simp

section \<open>f1_score on a perfect and on an empty prediction\<close>

lemma f1_sums_same:
  fixes y :: "8 word list"
  assumes "\<forall>b\<in>set y. b = 0 \<or> b = 1"
  shows "sum_list (map unat (map2 (\<lambda>t p. t * p) y y)) = length (filter (\<lambda>b. b = 1) y)"
    and "sum_list (map unat (map2 (\<lambda>t p. (1 - t) * p) y y)) = 0"
    and "sum_list (map unat (map2 (\<lambda>t p. t * (1 - p)) y y)) = 0"
  using assms by (induction y) auto

lemma f1_sums_zero_pred:
  fixes y_true :: "8 word list"
  shows "sum_list (map unat (map2 (\<lambda>t p. t * p) y_true (replicate n 0))) = 0"
  by (induction y_true arbitrary: n) (auto simp: zip_replicate2)

lemma ones_positive:
  fixes y :: "8 word list"
  assumes "1 \<in> set y"
  shows "1 \<le> length (filter (\<lambda>b. b = 1) y)"
proof -
  have "filter (\<lambda>b. b = 1) y \<noteq> []" using assms by (auto simp: filter_empty_conv)
  then show ?thesis by (cases "filter (\<lambda>b. b = 1) y") simp_all
qed

lemma f1_real_bounds:
  fixes x e p :: real
  assumes e: "0 < e" and x: "1 \<le> x" and p: "p = x / (x + e)"
  defines "f \<equiv> 2 * (p * p) / (p + p + e)"
  shows "f < 1" and "p - e / 2 < f" and "1 - e < p" and "2 \<le> x \<Longrightarrow> e < 1 \<Longrightarrow> 1 - e / 2 < p"
proof -
  have xe: "0 < x + e" using e x by linarith
  have p0: "0 < p" using e x xe by (simp add: p)
  have p1: "p < 1" using e x xe by (simp add: p)
  have d: "0 < p + p + e" using p0 e by linarith
  have pp: "p * p < p" using p0 p1 by simp
  show "f < 1"
    unfolding f_def using d pp e by (simp add: pos_divide_less_eq)
  have "(p - e / 2) * (p + p + e) = 2 * (p * p) - e * e / 2"
    by (simp add: algebra_simps)
  moreover have "0 < e * e" using e by simp
  ultimately have "(p - e / 2) * (p + p + e) < 2 * (p * p)" by linarith
  then show "p - e / 2 < f"
    unfolding f_def using d by (simp add: pos_less_divide_eq)
  have "(1 - e) * (x + e) = x - e * (x - 1) - e * e"
    by (simp add: algebra_simps)
  moreover have "0 \<le> e * (x - 1)" using e x by simp
  moreover have "0 < e * e" using e by simp
  ultimately have "(1 - e) * (x + e) < x" by linarith
  then show "1 - e < p"
    unfolding p using xe by (simp add: pos_less_divide_eq)
  show "1 - e / 2 < p" if "2 \<le> x" "e < 1"
  proof -
    have "(1 - e / 2) * (x + e) = x - e * (x - 2) / 2 - e * e / 2"
      by (simp add: field_simps)
    moreover have "0 \<le> e * (x - 2)" using e that by simp
    moreover have "0 < e * e" using e by simp
    ultimately have "(1 - e / 2) * (x + e) < x" by linarith
    then show ?thesis
      unfolding p using xe by (simp add: pos_less_divide_eq)
  qed
qed

lemma f1_score_same:
  fixes y :: "8 word list"
  assumes "\<forall>b\<in>set y. b = 0 \<or> b = 1"
  shows "f1_score y y 1 =
     Inr (2 * ((real (length (filter (\<lambda>b. b = 1) y)) / (real (length (filter (\<lambda>b. b = 1) y)) + epsilon))
            * (real (length (filter (\<lambda>b. b = 1) y)) / (real (length (filter (\<lambda>b. b = 1) y)) + epsilon)))
          / (real (length (filter (\<lambda>b. b = 1) y)) / (real (length (filter (\<lambda>b. b = 1) y)) + epsilon)
           + real (length (filter (\<lambda>b. b = 1) y)) / (real (length (filter (\<lambda>b. b = 1) y)) + epsilon)
           + epsilon))"
  unfolding f1_score_def Let_def f1_sums_same[OF assms] by simp

lemma f1_score_zero_pred: "f1_score y_true (replicate (length y_true) 0) 1 = Inr 0"
  unfolding f1_score_def Let_def f1_sums_zero_pred by simp

text \<open>
  Claim C5, as the code has it. For a binary array \<open>y\<close> with at least one positive
  entry, \<open>f1_score(y, y)\<close> lies strictly between \<open>1 - 1.5 epsilon\<close> and 1; it is within
  \<open>epsilon\<close> of 1 when \<open>y\<close> has two or more positive entries, and more than \<open>epsilon\<close>
  below 1 when \<open>y\<close> has exactly one. Against an all-zero prediction \<open>f1_score\<close>
  returns exactly 0. No division by zero arises: every denominator contains \<open>epsilon\<close>.
\<close>

theorem f1_score_perfect_and_empty:
  "((\<forall>b\<in>set y. b = 0 \<or> b = 1) \<and> 1 \<in> set y \<longrightarrow>
      (\<exists>v. f1_score y y 1 = Inr v \<and> 1 - 3 / 2 * epsilon < v \<and> v < 1
         \<and> (2 \<le> length (filter (\<lambda>b. b = 1) y) \<longrightarrow> 1 - epsilon < v)
         \<and> (length (filter (\<lambda>b. b = 1) y) = 1 \<longrightarrow> v < 1 - epsilon)))
   \<and> (1 \<in> set y_true \<longrightarrow> f1_score y_true (replicate (length y_true) 0) 1 = Inr 0)"
proof (intro conjI impI)
  show "f1_score y_true (replicate (length y_true) 0) 1 = Inr 0"
    by (rule f1_score_zero_pred)
next
  assume a: "(\<forall>b\<in>set y. b = 0 \<or> b = 1) \<and> 1 \<in> set y"
  define n where "n = length (filter (\<lambda>b. b = 1) y)"
  define p where "p = real n / (real n + epsilon)"
  define v where "v = 2 * (p * p) / (p + p + epsilon)"
  have e: "0 < epsilon" "epsilon < 1" by (simp_all add: epsilon_def)
  have n1: "1 \<le> real n" using a ones_positive[of y] by (simp add: n_def)
  have res: "f1_score y y 1 = Inr v"
    using a f1_score_same[of y] by (simp add: v_def p_def n_def)
  note b = f1_real_bounds[OF e(1) n1 p_def, folded v_def]
  have lt: "v < 1" by (rule b(1))
  have lo: "1 - 3 / 2 * epsilon < v" using b(2,3) by linarith
  have two: "2 \<le> n \<longrightarrow> 1 - epsilon < v"
  proof
    assume "2 \<le> n"
    then have "2 \<le> real n" by simp
    from b(4)[OF this e(2)] b(2) show "1 - epsilon < v" by linarith
  qed
  have one: "n = 1 \<longrightarrow> v < 1 - epsilon"
    by (simp add: v_def p_def epsilon_def)
  from res lt lo two one
  show "\<exists>v. f1_score y y 1 = Inr v \<and> 1 - 3 / 2 * epsilon < v \<and> v < 1
         \<and> (2 \<le> length (filter (\<lambda>b. b = 1) y) \<longrightarrow> 1 - epsilon < v)
         \<and> (length (filter (\<lambda>b. b = 1) y) = 1 \<longrightarrow> v < 1 - epsilon)"
    unfolding n_def by blast
qed

theorem f1_score_perfect_and_empty_witness:
  "list_all (\<lambda>b. b = 0 \<or> b = 1) [1, 0, 1 :: 8 word] \<and> 1 \<in> set [1, 0, 1 :: 8 word]
   \<and> 2 \<le> length (filter (\<lambda>b. b = 1) [1, 0, 1 :: 8 word])
   \<and> (\<exists>v. f1_score [1, 0, 1] [1, 0, 1] 1 = Inr v \<and> 1 - 3 / 2 * epsilon < v \<and> v < 1
          \<and> 1 - epsilon < v)
   \<and> 1 \<in> set [0, 1 :: 8 word]
   \<and> f1_score [0, 1] (replicate (length [0, 1 :: 8 word]) 0) 1 = Inr 0"
proof -
  have h: "(\<forall>b\<in>set [1, 0, 1 :: 8 word]. b = 0 \<or> b = 1) \<and> 1 \<in> set [1, 0, 1 :: 8 word]"
    and c: "2 \<le> length (filter (\<lambda>b. b = 1) [1, 0, 1 :: 8 word])"
    and z: "1 \<in> set [0, 1 :: 8 word]"
    by simp_all
  note th = f1_score_perfect_and_empty [of "[1, 0, 1]" "[0, 1]"]
  from th h c have "\<exists>v. f1_score [1, 0, 1] [1, 0, 1] 1 = Inr v \<and> 1 - 3 / 2 * epsilon < v
      \<and> v < 1 \<and> 1 - epsilon < v"
    by blast
  moreover from th z have "f1_score [0, 1] (replicate (length [0, 1 :: 8 word]) 0) 1 = Inr 0"
    by blast
  ultimately show ?thesis using h c z by simp
qed

text \<open>
  The claim as the specification words it fails for a single positive entry:
  \<open>f1_score([1], [1])\<close> is \<open>2 * 10^21 / 2000000300000020000001\<close>, about
  \<open>1 - 1.5 * 10^-7\<close>, which is further from 1 than \<open>epsilon = 10^-7\<close>.
\<close>

theorem f1_score_single_positive_counterexample:
  "f1_score [1] [1] 1 = Inr (2000000000000000000000 / 2000000300000020000001)
   \<and> epsilon < \<bar>2000000000000000000000 / 2000000300000020000001 - (1::real)\<bar>"
  by (simp add: f1_score_def Let_def epsilon_def)

section \<open>The frame loader\<close>

lemma nth_concat_uniform:
  assumes "\<forall>r\<in>set rows. length r = l" and "i < length rows" and "j < l"
  shows "concat rows ! (i * l + j) = rows ! i ! j"
  using assms
proof (induction rows arbitrary: i)
  case Nil
  then show ?case by simp
next
  case (Cons r rows)
  show ?case
  proof (cases i)
    case 0
    with Cons.prems show ?thesis by (simp add: nth_append)
  next
    case (Suc k)
    with Cons.prems have "concat rows ! (k * l + j) = rows ! k ! j"
      by (intro Cons.IH) simp_all
    with Suc Cons.prems show ?thesis by (simp add: nth_append add.assoc)
  qed
qed

lemma length_concat_uniform:
  "\<forall>r\<in>set rows. length r = l \<Longrightarrow> length (concat rows) = length rows * l"
  by (induction rows) simp_all

lemma dmd_frames_ok:
  assumes "\<forall>i\<in>set names. imread fs (dir @ ''/'' @ i) = Some (img i)"
  shows "dmd_frames fs dir names imgs shp =
     Inr (imgs @ map (\<lambda>i. map astype_float32_div255 (flat (img i))) names,
          if names = [] then shp else Some (shape (img (last names))))"
  using assms by (induction names arbitrary: imgs shp) simp_all

lemma vstack_uniform:
  assumes "rows \<noteq> []" and "\<forall>r\<in>set rows. length r = l"
  shows "vstack rows = Inr \<lparr>shape = [length rows, l], flat = concat rows\<rparr>"
  using assms by (cases rows) (auto simp: vstack_def list_all_iff)

lemma column_T:
  assumes "\<forall>r\<in>set rows. length r = l" and "i < length rows"
  shows "column (ndarray_T \<lparr>shape = [length rows, l], flat = concat rows\<rparr>) i = rows ! i"
proof -
  let ?n = "length rows"
  let ?t = "map (\<lambda>j. map (\<lambda>k. concat rows ! (k * l + j)) [0..<?n]) [0..<l]"
  have "concat ?t ! (j * ?n + i) = rows ! i ! j" if "j < l" for j
  proof -
    have "concat ?t ! (j * ?n + i) = ?t ! j ! i"
      using that assms(2) by (intro nth_concat_uniform) auto
    also have "\<dots> = concat rows ! (i * l + j)"
      using that assms(2) by simp
    also have "\<dots> = rows ! i ! j"
      using assms that by (intro nth_concat_uniform)
    finally show ?thesis .
  qed
  then have "map (\<lambda>j. concat ?t ! (j * ?n + i)) [0..<l] = map (\<lambda>j. rows ! i ! j) [0..<l]"
    by simp
  also have "\<dots> = rows ! i"
    using assms by (metis map_nth nth_mem)
  finally show ?thesis
    by (simp add: column_def ndarray_T_def)
qed

text \<open>
  Claim C7. For a directory that lists \<open>N \<ge> 1\<close> readable single-channel images, all of
  size \<open>H\<close> by \<open>W\<close>, \<open>get_video_dmd\<close> without noise returns a matrix of shape
  \<open>(H * W, N)\<close> together with \<open>(H, W)\<close>; column \<open>i\<close> of the matrix, reshaped to \<open>(H, W)\<close>,
  is image \<open>i\<close> in the lexicographic order of the file names, divided by 255, so that
  multiplying by 255 gives the pixels back (exactly, in the real-number model).
\<close>

theorem get_video_dmd_matrix_roundtrip:
  assumes "listdir fs (jpeg_dir @ object) = Some names" and "names \<noteq> []"
    and "\<forall>i\<in>set names. imread fs (jpeg_dir @ object @ ''/'' @ i) = Some (img i)
            \<and> shape (img i) = [H, W] \<and> length (flat (img i)) = H * W"
  shows "\<exists>vid. get_video_dmd fs object False noise_amt normal = Inr (vid, Some [H, W])
     \<and> shape vid = [H * W, length names]
     \<and> length (flat vid) = H * W * length names
     \<and> (\<forall>i<length names.
           \<lparr>shape = [H, W], flat = column vid i\<rparr> =
             \<lparr>shape = [H, W], flat = map astype_float32_div255 (flat (img (sort names ! i)))\<rparr>
         \<and> map (\<lambda>x. x * 255) (column vid i) = map (\<lambda>p. real (unat p)) (flat (img (sort names ! i))))"
proof -
  let ?names = "sort names"
  let ?rows = "map (\<lambda>i. map astype_float32_div255 (flat (img i))) ?names"
  let ?stacked = "\<lparr>shape = [length ?rows, H * W], flat = concat ?rows\<rparr>"
  have ne: "?names \<noteq> []" using assms(2) by (metis length_0_conv length_sort)
  have rd: "\<forall>i\<in>set ?names. imread fs ((jpeg_dir @ object) @ ''/'' @ i) = Some (img i)"
    using assms(3) by simp
  have lastin: "last ?names \<in> set names" using ne by (metis last_in_set set_sort)
  have frames: "dmd_frames fs (jpeg_dir @ object) ?names [] None = Inr (?rows, Some [H, W])"
    using dmd_frames_ok[OF rd, of "[]" None] ne assms(3) lastin by simp
  have uni: "\<forall>r\<in>set ?rows. length r = H * W"
    using assms(3) by auto
  have stack: "vstack ?rows = Inr ?stacked"
    using ne uni by (intro vstack_uniform) simp_all
  have res: "get_video_dmd fs object False noise_amt normal = Inr (ndarray_T ?stacked, Some [H, W])"
    using assms(1) frames stack by (simp add: get_video_dmd_def)
  have sh: "shape (ndarray_T ?stacked) = [H * W, length names]"
    by (simp add: ndarray_T_def)
  have ln: "length (flat (ndarray_T ?stacked)) = H * W * length names"
    by (simp add: ndarray_T_def length_concat_uniform[where l = "length names"])
  have col: "column (ndarray_T ?stacked) i = map astype_float32_div255 (flat (img (?names ! i)))"
    if "i < length names" for i
    using column_T[OF uni, of i] that by simp
  have times255: "map (\<lambda>x. x * 255) (map astype_float32_div255 ps) = map (\<lambda>p. real (unat p)) ps" for ps
    by (simp add: astype_float32_div255_def)
  from res sh ln col times255 show ?thesis by (intro exI[of _ "ndarray_T ?stacked"]) simp
qed

theorem get_video_dmd_matrix_roundtrip_witness:
  "listdir example_fs (jpeg_dir @ ''frog'') = Some [''b.png'', ''a.png'']
   \<and> [''b.png'', ''a.png''] \<noteq> []
   \<and> list_all (\<lambda>i. imread example_fs (jpeg_dir @ ''frog'' @ ''/'' @ i) = Some (example_img i)
          \<and> shape (example_img i) = [1, 2] \<and> length (flat (example_img i)) = 1 * 2)
        [''b.png'', ''a.png'']
   \<and> sort [''b.png'', ''a.png''] = [''a.png'', ''b.png'']
   \<and> get_video_dmd example_fs ''frog'' False 0 [] =
       Inr (\<lparr>shape = [2, 2], flat = [0, 1 / 5, 1, 2 / 5]\<rparr>, Some [1, 2])
   \<and> column \<lparr>shape = [2, 2], flat = [0, 1 / 5, 1, 2 / 5]\<rparr> 0 = [0, 1]
   \<and> column \<lparr>shape = [2, 2], flat = [0, 1 / 5, 1, 2 / 5]\<rparr> 1 = [1 / 5, 2 / 5]
   \<and> map (\<lambda>x. x * 255) (column \<lparr>shape = [2, 2], flat = [0, 1 / 5, 1, 2 / 5]\<rparr> 1) = [51, 102]"
proof -
  have l: "listdir example_fs (jpeg_dir @ ''frog'') = Some [''b.png'', ''a.png'']"
    by (simp add: example_fs_def jpeg_dir_def)
  have n: "[''b.png'', ''a.png''] \<noteq> []" by simp
  have r: "\<forall>i\<in>set [''b.png'', ''a.png''].
      imread example_fs (jpeg_dir @ ''frog'' @ ''/'' @ i) = Some (example_img i)
      \<and> shape (example_img i) = [1, 2] \<and> length (flat (example_img i)) = 1 * 2"
    by (simp add: example_fs_def jpeg_dir_def example_img_def)
  have s: "sort [''b.png'', ''a.png''] = [''a.png'', ''b.png'']"
    by code_simp
  have v: "get_video_dmd example_fs ''frog'' False 0 [] =
      Inr (\<lparr>shape = [2, 2], flat = [0, 1 / 5, 1, 2 / 5]\<rparr>, Some [1, 2])"
    by code_simp
  from get_video_dmd_matrix_roundtrip [OF l n r, of 0 "[]"] v s
  have "column \<lparr>shape = [2, 2], flat = [0, 1 / 5, 1, 2 / 5]\<rparr> 0
        = map astype_float32_div255 (flat (example_img ''a.png''))"
    and "column \<lparr>shape = [2, 2], flat = [0, 1 / 5, 1, 2 / 5]\<rparr> 1
        = map astype_float32_div255 (flat (example_img ''b.png''))"
    by auto
  then have "column \<lparr>shape = [2, 2], flat = [0, 1 / 5, 1, 2 / 5]\<rparr> 0 = [0, 1]"
    and "column \<lparr>shape = [2, 2], flat = [0, 1 / 5, 1, 2 / 5]\<rparr> 1 = [1 / 5, 2 / 5]"
    by (simp_all add: example_img_def astype_float32_div255_def)
  with l n r s v show ?thesis by (simp add: list_all_iff)
qed

text \<open>
  Claim C1. With \<open>noise\<close> set, \<open>get_video_dmd\<close> is to return the matrix with Gaussian
  noise added and clipped to \<open>[0, 1]\<close>. On the two frames of \<open>example_fs\<close> and the draws
  \<open>1/2, -1/2, 1/2, -1/2\<close> the noisy, clipped matrix is \<open>[[1/2, 0], [1, 0]]\<close>, but the
  function returns \<open>[[0, 1/5], [1, 2/5]]\<close>, the matrix it returns without noise.
\<close>

theorem get_video_dmd_noise_discarded:
  "get_video_dmd example_fs ''frog'' True (1 / 100) [1 / 2, - 1 / 2, 1 / 2, - 1 / 2]
     = Inr (\<lparr>shape = [2, 2], flat = [0, 1 / 5, 1, 2 / 5]\<rparr>, Some [1, 2])
   \<and> get_video_dmd example_fs ''frog'' False (1 / 100) [1 / 2, - 1 / 2, 1 / 2, - 1 / 2]
     = Inr (\<lparr>shape = [2, 2], flat = [0, 1 / 5, 1, 2 / 5]\<rparr>, Some [1, 2])
   \<and> add_noise_clip \<lparr>shape = [2, 2], flat = [0, 1 / 5, 1, 2 / 5]\<rparr>
        [1 / 2, - 1 / 2, 1 / 2, - 1 / 2]
     = \<lparr>shape = [2, 2], flat = [1 / 2, 0, 1, 0]\<rparr>"
  by code_simp

text \<open>
  The same for every input: when the scale is not negative, the flag \<open>noise\<close> and the
  draws have no influence on what \<open>get_video_dmd\<close> returns.
\<close>

lemma get_video_dmd_noise_ignored:
  "0 \<le> noise_amt \<Longrightarrow>
   get_video_dmd fs object True noise_amt normal = get_video_dmd fs object False noise_amt' normal'"
  by (simp add: get_video_dmd_def Let_def split: option.splits sum.splits)

section \<open>The ground-truth loader\<close>

lemma gt_frames_ok:
  assumes "\<forall>i\<in>set names. imread fs (dir @ ''/'' @ i) = Some (img i)"
  shows "gt_frames fs dir names imgs =
     Inr (imgs @ map (\<lambda>i. \<lparr>shape = shape (img i),
                            flat = map astype_float32_div255 (flat (img i))\<rparr>) names)"
  using assms by (induction names arbitrary: imgs) simp_all

lemma sorted_intersection:
  "sort (remdups (filter (\<lambda>x. x \<in> set l2) (sort l1))) = sorted_list_of_set (set l1 \<inter> set l2)"
proof -
  have "set (filter (\<lambda>x. x \<in> set l2) (sort l1)) = set l1 \<inter> set l2"
    by auto
  then show ?thesis
    by (metis sorted_list_of_set_sort_remdups)
qed

text \<open>
  Claim C2, as the code has it. When both directories can be listed and every file whose
  name is in both listings can be read in the ground-truth directory
  \<open>SegTrackv2/GroundTruth/<object>\<close>, \<open>get_gt_video\<close> returns the images read from the
  ground-truth directory, for the names of the intersection in lexicographic order,
  each divided by 255. The pixel data of the raw-frame directory is not read.
\<close>

theorem get_gt_video_reads_ground_truth:
  assumes "listdir fs (''SegTrackv2/GroundTruth/'' @ object) = Some l1"
    and "listdir fs (''SegTrackv2/JPEGImages/'' @ object) = Some l2"
    and "\<forall>i\<in>set l1 \<inter> set l2.
           imread fs (''SegTrackv2/GroundTruth/'' @ object @ ''/'' @ i) = Some (img i)"
  shows "get_gt_video fs object =
     asarray (map (\<lambda>i. \<lparr>shape = shape (img i), flat = map astype_float32_div255 (flat (img i))\<rparr>)
                (sorted_list_of_set (set l1 \<inter> set l2)))"
proof -
  let ?names = "sorted_list_of_set (set l1 \<inter> set l2)"
  have "\<forall>i\<in>set ?names. imread fs ((''SegTrackv2/GroundTruth/'' @ object) @ ''/'' @ i) = Some (img i)"
    using assms(3) by simp
  then have "gt_frames fs (''SegTrackv2/GroundTruth/'' @ object) ?names [] =
     Inr ([] @ map (\<lambda>i. \<lparr>shape = shape (img i),
                            flat = map astype_float32_div255 (flat (img i))\<rparr>) ?names)"
    by (rule gt_frames_ok)
  then show ?thesis
    using assms(1,2) by (simp add: get_gt_video_def Let_def sorted_intersection)
qed

theorem get_gt_video_reads_ground_truth_witness:
  "listdir example_fs (''SegTrackv2/GroundTruth/'' @ ''frog'') = Some [''a.png'', ''c.png'']
   \<and> listdir example_fs (''SegTrackv2/JPEGImages/'' @ ''frog'') = Some [''b.png'', ''a.png'']
   \<and> sorted_list_of_set (set [''a.png'', ''c.png''] \<inter> set [''b.png'', ''a.png'']) = [''a.png'']
   \<and> imread example_fs (''SegTrackv2/GroundTruth/'' @ ''frog'' @ ''/'' @ ''a.png'')
       = Some \<lparr>shape = [1, 2], flat = [255, 0]\<rparr>
   \<and> get_gt_video example_fs ''frog'' = Inr \<lparr>shape = [1, 1, 2], flat = [1, 0]\<rparr>"
proof -
  have l1: "listdir example_fs (''SegTrackv2/GroundTruth/'' @ ''frog'') = Some [''a.png'', ''c.png'']"
    and l2: "listdir example_fs (''SegTrackv2/JPEGImages/'' @ ''frog'') = Some [''b.png'', ''a.png'']"
    by (simp_all add: example_fs_def)
  have s: "sorted_list_of_set (set [''a.png'', ''c.png''] \<inter> set [''b.png'', ''a.png''])
      = [''a.png'']"
    by code_simp
  have r: "\<forall>i\<in>set [''a.png'', ''c.png''] \<inter> set [''b.png'', ''a.png''].
      imread example_fs (''SegTrackv2/GroundTruth/'' @ ''frog'' @ ''/'' @ i)
        = Some ((\<lambda>i. \<lparr>shape = [1, 2], flat = [255, 0]\<rparr>) i)"
    by (simp add: example_fs_def)
  have a: "imread example_fs (''SegTrackv2/GroundTruth/'' @ ''frog'' @ ''/'' @ ''a.png'')
       = Some \<lparr>shape = [1, 2], flat = [255, 0]\<rparr>"
    by (simp add: example_fs_def)
  from get_gt_video_reads_ground_truth [OF l1 l2 r]
  have "get_gt_video example_fs ''frog'' = Inr \<lparr>shape = [1, 1, 2], flat = [1, 0]\<rparr>"
    unfolding s by (simp add: asarray_def astype_float32_div255_def)
  with l1 l2 s a show ?thesis by simp
qed

text \<open>
  The claim as the specification words it fails: in \<open>example_fs\<close> the file \<open>a.png\<close> holds
  the pixels \<open>[0, 255]\<close> in the raw-frame directory and \<open>[255, 0]\<close> in the ground-truth
  directory, and \<open>get_gt_video\<close> returns \<open>[1, 0]\<close>, the ground-truth pixels.
\<close>

theorem get_gt_video_raw_frames_counterexample:
  "imread example_fs ''SegTrackv2/JPEGImages/frog/a.png'' = Some \<lparr>shape = [1, 2], flat = [0, 255]\<rparr>
   \<and> imread example_fs ''SegTrackv2/GroundTruth/frog/a.png''
       = Some \<lparr>shape = [1, 2], flat = [255, 0]\<rparr>
   \<and> get_gt_video example_fs ''frog'' = Inr \<lparr>shape = [1, 1, 2], flat = [1, 0]\<rparr>
   \<and> get_gt_video example_fs ''frog'' \<noteq> Inr \<lparr>shape = [1, 1, 2], flat = [0, 1]\<rparr>"
  by code_simp

end
